theory Spec2Isabelle
  imports Main
begin

section \<open>JavaScript values and the JSON codec\<close>

text \<open>
  The token lifecycle of the dashboard lives in two files: \<^verbatim>\<open>src/utils/getValidAuthToken.js\<close>
  (the token validator) and \<^verbatim>\<open>src/pages/Home.jsx\<close> (the page with its effects and event
  handlers). Both keep the access token in \<^verbatim>\<open>localStorage\<close> under the key
  \<^verbatim>\<open>ebay_user_token\<close>, as the text \<^verbatim>\<open>JSON.stringify({ value, expiry })\<close>, and the
  validator reads it back with \<^verbatim>\<open>JSON.parse\<close>.

  JavaScript values are a datatype. Numbers are integers (epoch milliseconds and seconds;
  every number the program computes from integer inputs is one, and IEEE rounding plays
  no part below \<open>2^53\<close>), with \<open>JNaN\<close> for the one non-number the arithmetic of the
  program can produce (\<^verbatim>\<open>undefined * 1000\<close>). Strings are HOL strings.
\<close>

datatype jsval =
    JUndefined
  | JNull
  | JBool bool
  | JNum int
  | JNaN
  | JStr string
  | JArr "jsval list"
  | JObj "(string \<times> jsval) list"

text \<open>Truthiness, as \<^verbatim>\<open>if (x)\<close>, \<^verbatim>\<open>x && y\<close> and \<^verbatim>\<open>x || y\<close> decide it.\<close>

fun truthy :: "jsval \<Rightarrow> bool" where
  "truthy JUndefined = False"
| "truthy JNull = False"
| "truthy (JBool b) = b"
| "truthy (JNum n) = (n \<noteq> 0)"
| "truthy JNaN = False"
| "truthy (JStr s) = (s \<noteq> [])"
| "truthy (JArr vs) = True"
| "truthy (JObj fs) = True"

subsection \<open>Characters\<close>

definition quote :: char where
  "quote = CHR 0x22"

definition backslash :: char where
  "backslash = CHR 0x5C"

text \<open>The control characters are the codes below \<open>0x20\<close>: the three high bits are clear.\<close>

definition is_control :: "char \<Rightarrow> bool" where
  "is_control c = (\<not> digit5 c \<and> \<not> digit6 c \<and> \<not> digit7 c)"

definition is_ws :: "char \<Rightarrow> bool" where
  "is_ws c = (c = CHR '' '' \<or> c = CHR 0x09 \<or> c = CHR 0x0A \<or> c = CHR 0x0D)"

fun skip_ws :: "string \<Rightarrow> string" where
  "skip_ws [] = []"
| "skip_ws (c # cs) = (if is_ws c then skip_ws cs else c # cs)"

definition digit_char :: "nat \<Rightarrow> char" where
  "digit_char d =
     (if d = 0 then CHR ''0'' else if d = 1 then CHR ''1'' else if d = 2 then CHR ''2''
      else if d = 3 then CHR ''3'' else if d = 4 then CHR ''4'' else if d = 5 then CHR ''5''
      else if d = 6 then CHR ''6'' else if d = 7 then CHR ''7'' else if d = 8 then CHR ''8''
      else CHR ''9'')"

text \<open>The value of a decimal digit; \<open>None\<close> for any other character.\<close>

definition digit_of :: "char \<Rightarrow> nat option" where
  "digit_of c =
     map_of [(CHR ''0'', 0), (CHR ''1'', 1), (CHR ''2'', 2), (CHR ''3'', 3), (CHR ''4'', 4),
             (CHR ''5'', 5), (CHR ''6'', 6), (CHR ''7'', 7), (CHR ''8'', 8), (CHR ''9'', 9)] c"

definition hex_char :: "nat \<Rightarrow> char" where
  "hex_char d =
     (if d < 10 then digit_char d
      else if d = 10 then CHR ''a'' else if d = 11 then CHR ''b'' else if d = 12 then CHR ''c''
      else if d = 13 then CHR ''d'' else if d = 14 then CHR ''e'' else CHR ''f'')"

definition hex_of :: "char \<Rightarrow> nat option" where
  "hex_of c =
     (case digit_of c of
        Some d \<Rightarrow> Some d
      | None \<Rightarrow>
          if c = CHR ''a'' \<or> c = CHR ''A'' then Some 10
          else if c = CHR ''b'' \<or> c = CHR ''B'' then Some 11
          else if c = CHR ''c'' \<or> c = CHR ''C'' then Some 12
          else if c = CHR ''d'' \<or> c = CHR ''D'' then Some 13
          else if c = CHR ''e'' \<or> c = CHR ''E'' then Some 14
          else if c = CHR ''f'' \<or> c = CHR ''F'' then Some 15
          else None)"

definition nibble :: "bool \<Rightarrow> bool \<Rightarrow> bool \<Rightarrow> bool \<Rightarrow> nat" where
  "nibble b0 b1 b2 b3 =
     (if b0 then 1 else 0) + (if b1 then 2 else 0) + (if b2 then 4 else 0) + (if b3 then 8 else 0)"

definition char_of_nibbles :: "nat \<Rightarrow> nat \<Rightarrow> char" where
  "char_of_nibbles hi lo =
     Char (odd lo) (odd (lo div 2)) (odd (lo div 4)) (odd (lo div 8))
          (odd hi) (odd (hi div 2)) (odd (hi div 4)) (odd (hi div 8))"

subsection \<open>Numbers as decimal text\<close>

fun show_nat :: "nat \<Rightarrow> string" where
  "show_nat n = (if n < 10 then [digit_char n] else show_nat (n div 10) @ [digit_char (n mod 10)])"

declare show_nat.simps [simp del]

definition show_int :: "int \<Rightarrow> string" where
  "show_int i = (if i < 0 then CHR ''-'' # show_nat (nat (- i)) else show_nat (nat i))"

text \<open>
  Reading digits: \<open>read_digits acc s\<close> consumes the longest run of digits at the head of
  \<open>s\<close> and returns the value (continuing \<open>acc\<close>) with the rest.
\<close>

fun read_digits :: "nat \<Rightarrow> string \<Rightarrow> nat \<times> string" where
  "read_digits acc [] = (acc, [])"
| "read_digits acc (c # cs) =
     (case digit_of c of
        Some d \<Rightarrow> read_digits (10 * acc + d) cs
      | None \<Rightarrow> (acc, c # cs))"

text \<open>
  The integer part of a JSON number: a single \<open>0\<close>, or a non-zero digit followed by
  digits. A fraction (\<open>.5\<close>) or exponent (\<open>e3\<close>) after it is left in the rest, where no
  caller accepts it: number texts with a fraction or exponent lie outside this model,
  which reads them as a syntax error.
\<close>

definition parse_nat :: "string \<Rightarrow> (nat \<times> string) option" where
  "parse_nat s =
     (case s of
        [] \<Rightarrow> None
      | c # cs \<Rightarrow>
          (case digit_of c of
             None \<Rightarrow> None
           | Some d \<Rightarrow> if d = 0 then Some (0, cs) else Some (read_digits d cs)))"

definition parse_number :: "string \<Rightarrow> (jsval \<times> string) option" where
  "parse_number s =
     (case s of
        [] \<Rightarrow> None
      | c # cs \<Rightarrow>
          if c = CHR ''-'' then
            (case parse_nat cs of
               None \<Rightarrow> None
             | Some (n, r) \<Rightarrow> Some (JNum (- int n), r))
          else
            (case parse_nat s of
               None \<Rightarrow> None
             | Some (n, r) \<Rightarrow> Some (JNum (int n), r)))"

subsection \<open>Strings as JSON text\<close>

text \<open>
  \<^verbatim>\<open>JSON.stringify\<close> quotes a string: \<open>"\<close> and \<open>\\<close> get a backslash, the control
  characters become \<open>\b \t \n \f \r\<close> or \<open>\u00xx\<close>, every other character stands for itself.
\<close>

definition escape_char :: "char \<Rightarrow> string" where
  "escape_char c =
     (if c = quote then [backslash, quote]
      else if c = backslash then [backslash, backslash]
      else if c = CHR 0x08 then [backslash, CHR ''b'']
      else if c = CHR 0x09 then [backslash, CHR ''t'']
      else if c = CHR 0x0A then [backslash, CHR ''n'']
      else if c = CHR 0x0C then [backslash, CHR ''f'']
      else if c = CHR 0x0D then [backslash, CHR ''r'']
      else if is_control c then
        [backslash, CHR ''u'', CHR ''0'', CHR ''0'',
         hex_char (nibble (digit4 c) (digit5 c) (digit6 c) (digit7 c)),
         hex_char (nibble (digit0 c) (digit1 c) (digit2 c) (digit3 c))]
      else [c])"

definition quote_string :: "string \<Rightarrow> string" where
  "quote_string s = quote # concat (map escape_char s) @ [quote]"

definition simple_escape :: "char \<Rightarrow> char option" where
  "simple_escape e =
     (if e = quote then Some quote
      else if e = backslash then Some backslash
      else if e = CHR ''/'' then Some (CHR ''/'')
      else if e = CHR ''b'' then Some (CHR 0x08)
      else if e = CHR ''f'' then Some (CHR 0x0C)
      else if e = CHR ''n'' then Some (CHR 0x0A)
      else if e = CHR ''r'' then Some (CHR 0x0D)
      else if e = CHR ''t'' then Some (CHR 0x09)
      else None)"

text \<open>
  A \<open>\uXXXX\<close> escape names a UTF-16 code unit; characters here are 8-bit, so the escape is
  read when it names a code below \<open>0x100\<close> and is outside the model (a syntax error)
  otherwise.
\<close>

definition unicode_escape :: "char \<Rightarrow> char \<Rightarrow> char \<Rightarrow> char \<Rightarrow> char option" where
  "unicode_escape a b c d =
     (case (hex_of a, hex_of b, hex_of c, hex_of d) of
        (Some h3, Some h2, Some h1, Some h0) \<Rightarrow>
          if h3 = 0 \<and> h2 = 0 then Some (char_of_nibbles h1 h0) else None
      | _ \<Rightarrow> None)"

definition cons_char :: "char \<Rightarrow> (string \<times> string) option \<Rightarrow> (string \<times> string) option" where
  "cons_char c r = (case r of None \<Rightarrow> None | Some (s, rest) \<Rightarrow> Some (c # s, rest))"

text \<open>\<open>parse_chars\<close> reads the body of a string, after the opening quote, up to the closing one.\<close>

fun parse_chars :: "string \<Rightarrow> (string \<times> string) option" where
  "parse_chars [] = None"
| "parse_chars (c # cs) =
     (if c = quote then Some ([], cs)
      else if c = backslash then
        (case cs of
           [] \<Rightarrow> None
         | e # r \<Rightarrow>
             if e = CHR ''u'' then
               (case r of
                  a # b # x # y # r' \<Rightarrow>
                    (case unicode_escape a b x y of
                       Some ch \<Rightarrow> cons_char ch (parse_chars r')
                     | None \<Rightarrow> None)
                | _ \<Rightarrow> None)
             else
               (case simple_escape e of
                  Some ch \<Rightarrow> cons_char ch (parse_chars r)
                | None \<Rightarrow> None))
      else if is_control c then None
      else cons_char c (parse_chars cs))"

subsection \<open>\<^verbatim>\<open>JSON.stringify\<close>\<close>

text \<open>
  Object members whose value is \<^verbatim>\<open>undefined\<close> are left out; \<^verbatim>\<open>undefined\<close> in an array
  and \<open>NaN\<close> anywhere are written \<open>null\<close>. (Integers from \<open>10^21\<close> on are written with
  an exponent by JavaScript and in full here; no timestamp comes near.)
\<close>

fun stringify :: "jsval \<Rightarrow> string"
  and stringify_elems :: "jsval list \<Rightarrow> string"
  and stringify_members :: "bool \<Rightarrow> (string \<times> jsval) list \<Rightarrow> string" where
  "stringify JUndefined = ''null''"
| "stringify JNull = ''null''"
| "stringify (JBool b) = (if b then ''true'' else ''false'')"
| "stringify (JNum n) = show_int n"
| "stringify JNaN = ''null''"
| "stringify (JStr s) = quote_string s"
| "stringify (JArr vs) = ''['' @ stringify_elems vs @ '']''"
| "stringify (JObj fs) = ''{'' @ stringify_members True fs @ ''}''"
| "stringify_elems [] = []"
| "stringify_elems (v # vs) = stringify v @ (if vs = [] then [] else '','' @ stringify_elems vs)"
| "stringify_members first [] = []"
| "stringify_members first ((k, v) # fs) =
     (if v = JUndefined then stringify_members first fs
      else (if first then [] else '','') @ quote_string k @ '':'' @ stringify v
           @ stringify_members False fs)"

definition JSON_stringify :: "jsval \<Rightarrow> string" where
  "JSON_stringify v = stringify v"

subsection \<open>\<^verbatim>\<open>JSON.parse\<close>\<close>

fun strip_prefix :: "string \<Rightarrow> string \<Rightarrow> string option" where
  "strip_prefix [] s = Some s"
| "strip_prefix (p # ps) [] = None"
| "strip_prefix (p # ps) (c # cs) = (if p = c then strip_prefix ps cs else None)"

text \<open>
  A recursive-descent reader of the JSON grammar. The first argument bounds the depth of
  the calls; the length of the text is enough (\<open>JSON_parse_fuel_enough\<close> below).
  \<open>None\<close> is the \<^verbatim>\<open>SyntaxError\<close> of \<^verbatim>\<open>JSON.parse\<close>.
\<close>

fun parse_value :: "nat \<Rightarrow> string \<Rightarrow> (jsval \<times> string) option"
  and parse_elements :: "nat \<Rightarrow> string \<Rightarrow> (jsval list \<times> string) option"
  and parse_members :: "nat \<Rightarrow> string \<Rightarrow> ((string \<times> jsval) list \<times> string) option" where
  "parse_value 0 s = None"
| "parse_value (Suc n) s =
     (case skip_ws s of
        [] \<Rightarrow> None
      | c # cs \<Rightarrow>
          if c = CHR ''{'' then
            (case skip_ws cs of
               [] \<Rightarrow> None
             | d # ds \<Rightarrow>
                 if d = CHR ''}'' then Some (JObj [], ds)
                 else (case parse_members n cs of
                         None \<Rightarrow> None
                       | Some (fs, r) \<Rightarrow> Some (JObj fs, r)))
          else if c = CHR ''['' then
            (case skip_ws cs of
               [] \<Rightarrow> None
             | d # ds \<Rightarrow>
                 if d = CHR '']'' then Some (JArr [], ds)
                 else (case parse_elements n cs of
                         None \<Rightarrow> None
                       | Some (vs, r) \<Rightarrow> Some (JArr vs, r)))
          else if c = quote then
            (case parse_chars cs of
               None \<Rightarrow> None
             | Some (str, r) \<Rightarrow> Some (JStr str, r))
          else if c = CHR ''t'' then
            (case strip_prefix ''rue'' cs of None \<Rightarrow> None | Some r \<Rightarrow> Some (JBool True, r))
          else if c = CHR ''f'' then
            (case strip_prefix ''alse'' cs of None \<Rightarrow> None | Some r \<Rightarrow> Some (JBool False, r))
          else if c = CHR ''n'' then
            (case strip_prefix ''ull'' cs of None \<Rightarrow> None | Some r \<Rightarrow> Some (JNull, r))
          else parse_number (c # cs))"
| "parse_elements 0 s = None"
| "parse_elements (Suc n) s =
     (case parse_value n s of
        None \<Rightarrow> None
      | Some (v, r) \<Rightarrow>
          (case skip_ws r of
             [] \<Rightarrow> None
           | c # cs \<Rightarrow>
               if c = CHR '']'' then Some ([v], cs)
               else if c = CHR '','' then
                 (case parse_elements n cs of
                    None \<Rightarrow> None
                  | Some (vs, r') \<Rightarrow> Some (v # vs, r'))
               else None))"
| "parse_members 0 s = None"
| "parse_members (Suc n) s =
     (case skip_ws s of
        [] \<Rightarrow> None
      | q # ks \<Rightarrow>
          if q \<noteq> quote then None
          else
            (case parse_chars ks of
               None \<Rightarrow> None
             | Some (k, r) \<Rightarrow>
                 (case skip_ws r of
                    [] \<Rightarrow> None
                  | c # cs \<Rightarrow>
                      if c \<noteq> CHR '':'' then None
                      else
                        (case parse_value n cs of
                           None \<Rightarrow> None
                         | Some (v, r') \<Rightarrow>
                             (case skip_ws r' of
                                [] \<Rightarrow> None
                              | e # es \<Rightarrow>
                                  if e = CHR ''}'' then Some ([(k, v)], es)
                                  else if e = CHR '','' then
                                    (case parse_members n es of
                                       None \<Rightarrow> None
                                     | Some (fs, r'') \<Rightarrow> Some ((k, v) # fs, r''))
                                  else None)))))"

definition JSON_parse :: "string \<Rightarrow> jsval option" where
  "JSON_parse s =
     (case parse_value (Suc (length s)) s of
        None \<Rightarrow> None
      | Some (v, r) \<Rightarrow> if skip_ws r = [] then Some v else None)"

text \<open>
  \<^verbatim>\<open>String(x)\<close>, the text \<^verbatim>\<open>localStorage.setItem\<close> stores when it is handed a value
  that is not a string.
\<close>

fun to_String :: "jsval \<Rightarrow> string"
  and join_elems :: "jsval list \<Rightarrow> string" where
  "to_String JUndefined = ''undefined''"
| "to_String JNull = ''null''"
| "to_String (JBool b) = (if b then ''true'' else ''false'')"
| "to_String (JNum n) = show_int n"
| "to_String JNaN = ''NaN''"
| "to_String (JStr s) = s"
| "to_String (JArr vs) = join_elems vs"
| "to_String (JObj fs) = ''[object Object]''"
| "join_elems [] = []"
| "join_elems (v # vs) =
     (if v = JNull \<or> v = JUndefined then [] else to_String v)
     @ (if vs = [] then [] else '','' @ join_elems vs)"

text \<open>
  Reading a property of a parsed value, for the two names the program reads (\<open>value\<close>
  and \<open>expiry\<close>, which no prototype defines): \<open>None\<close> is the \<^verbatim>\<open>TypeError\<close> of
  destructuring \<^verbatim>\<open>null\<close>; a primitive or an array has neither property; in an object
  the last member of that name counts.
\<close>

fun get_prop :: "jsval \<Rightarrow> string \<Rightarrow> jsval option" where
  "get_prop JUndefined k = None"
| "get_prop JNull k = None"
| "get_prop (JObj fs) k = Some (case map_of (rev fs) k of None \<Rightarrow> JUndefined | Some v \<Rightarrow> v)"
| "get_prop v k = Some JUndefined"

section \<open>Page state, \<^verbatim>\<open>localStorage\<close> and the trace of effects\<close>

text \<open>
  What the collaborators are asked, in the order the program asks it. The listings call
  takes no argument in the source (the token is attached by an interceptor that is not
  part of these two files); what is recorded with the call is the \<open>ebayToken\<close> of the
  page when the call is made.
\<close>

datatype api_call =
    GetEbayUserToken string
  | ExchangeCode string string
  | RefreshEbayUserToken string
  | GetActiveListings jsval

datatype effect =
    SetItem string string
  | RemoveItem string
  | Call api_call
  | Reload

text \<open>
  The state of \<^verbatim>\<open>Home\<close> (its five \<^verbatim>\<open>useState\<close> cells), the browser's
  \<^verbatim>\<open>localStorage\<close>, and the trace of every storage write, network call and reload.
\<close>

record home =
  localStorage :: "string \<rightharpoonup> string"
  page :: nat
  ebayToken :: jsval
  needsConnection :: bool
  loadingListings :: bool
  listingsError :: "string option"
  trace :: "effect list"

definition initial :: "(string \<rightharpoonup> string) \<Rightarrow> home" where
  "initial store =
     \<lparr>localStorage = store, page = 1, ebayToken = JNull, needsConnection = False,
      loadingListings = False, listingsError = None, trace = []\<rparr>"

definition getItem :: "home \<Rightarrow> string \<Rightarrow> string option" where
  "getItem st k = localStorage st k"

definition setItem :: "string \<Rightarrow> string \<Rightarrow> home \<Rightarrow> home" where
  "setItem k v st =
     st\<lparr>localStorage := (localStorage st)(k \<mapsto> v), trace := trace st @ [SetItem k v]\<rparr>"

definition removeItem :: "string \<Rightarrow> home \<Rightarrow> home" where
  "removeItem k st =
     st\<lparr>localStorage := (localStorage st)(k := None), trace := trace st @ [RemoveItem k]\<rparr>"

definition call :: "api_call \<Rightarrow> home \<Rightarrow> home" where
  "call c st = st\<lparr>trace := trace st @ [Call c]\<rparr>"

definition reload :: "home \<Rightarrow> home" where
  "reload st = st\<lparr>trace := trace st @ [Reload]\<rparr>"

subsection \<open>Errors, promises and the replies of the API\<close>

record js_error =
  message :: string
  status :: "int option"
  response_status :: "int option"

definition TypeError :: js_error where
  "TypeError = \<lparr>message = ''TypeError'', status = None, response_status = None\<rparr>"

text \<open>An awaited promise either rejects (the \<^verbatim>\<open>await\<close> throws) or resolves to a value.\<close>

datatype 'a promise = Rejected js_error | Resolved 'a

text \<open>
  The replies of the Auth API, \<^verbatim>\<open>{ success, error, data: { access_token, refresh_token,
  expires_in, expires_in_seconds } }\<close>; an absent member is \<open>None\<close>.
\<close>

record token_data =
  access_token :: "string option"
  refresh_token :: "string option"
  expires_in :: "int option"
  expires_in_seconds :: "int option"

record auth_response =
  success :: bool
  error :: "string option"
  data :: "token_data option"

text \<open>The reply of the Inventory API, \<^verbatim>\<open>{ success, error, errors: [{ errorId }] }\<close>.\<close>

record listing_error =
  errorId :: "int option"

record listings_response =
  success_l :: bool
  error_l :: "string option"
  errors :: "listing_error list option"

text \<open>\<^verbatim>\<open>data.errors?.[0]?.errorId\<close>\<close>

definition first_errorId :: "listings_response \<Rightarrow> int option" where
  "first_errorId r =
     (case errors r of
        None \<Rightarrow> None
      | Some [] \<Rightarrow> None
      | Some (e # es) \<Rightarrow> errorId e)"

record user =
  uid :: string

text \<open>
  The record the three flows write, \<^verbatim>\<open>JSON.stringify({ value: v, expiry: e })\<close>, and the
  number \<^verbatim>\<open>Date.now() + seconds * 1000\<close>, which is \<open>NaN\<close> when \<open>seconds\<close> is
  \<^verbatim>\<open>undefined\<close>.
\<close>

definition token_record :: "jsval \<Rightarrow> jsval \<Rightarrow> string" where
  "token_record v e = JSON_stringify (JObj [(''value'', v), (''expiry'', e)])"

definition expiry_after :: "int \<Rightarrow> int option \<Rightarrow> jsval" where
  "expiry_after now seconds =
     (case seconds of None \<Rightarrow> JNaN | Some n \<Rightarrow> JNum (now + n * 1000))"

definition opt_str :: "string option \<Rightarrow> jsval" where
  "opt_str s = (case s of None \<Rightarrow> JUndefined | Some x \<Rightarrow> JStr x)"

text \<open>\<^verbatim>\<open>x || 7200\<close> on a number that may be absent: \<open>0\<close> is falsy as well.\<close>

definition or_7200 :: "int option \<Rightarrow> int" where
  "or_7200 x = (case x of None \<Rightarrow> 7200 | Some n \<Rightarrow> if n = 0 then 7200 else n)"

section \<open>The token validator (\<^verbatim>\<open>getValidAuthToken.js\<close>)\<close>

text \<open>
  Step 1 of \<^verbatim>\<open>getValidAuthToken\<close>: the stored text \<open>raw\<close>, when there is one and it
  is not empty, is parsed and destructured inside a \<^verbatim>\<open>try\<close> whose \<^verbatim>\<open>catch\<close> ignores
  the error; the value is returned when \<^verbatim>\<open>typeof expiry === 'number' && Date.now() <
  expiry && value\<close>. \<open>None\<close> is "fall through to the backend".
\<close>

definition local_token :: "int \<Rightarrow> string option \<Rightarrow> jsval option" where
  "local_token now raw =
     (case raw of
        None \<Rightarrow> None
      | Some r \<Rightarrow>
          if r = [] then None
          else
            (case JSON_parse r of
               None \<Rightarrow> None
             | Some parsed \<Rightarrow>
                 (case (get_prop parsed ''value'', get_prop parsed ''expiry'') of
                    (Some val, Some expiry) \<Rightarrow>
                      (case expiry of
                         JNum e \<Rightarrow> if now < e \<and> truthy val then Some val else None
                       | _ \<Rightarrow> None)
                  | _ \<Rightarrow> None)))"

text \<open>
  The test of step 3, \<^verbatim>\<open>resp && resp.success && resp.data && typeof
  resp.data.access_token === 'string'\<close>: the token and the data it came in, when the
  test passes.
\<close>

definition token_reply :: "auth_response option \<Rightarrow> (string \<times> token_data) option" where
  "token_reply resp =
     (case resp of
        None \<Rightarrow> None
      | Some r \<Rightarrow>
          if \<not> success r then None
          else
            (case data r of
               None \<Rightarrow> None
             | Some d \<Rightarrow>
                 (case access_token d of
                    None \<Rightarrow> None
                  | Some newToken \<Rightarrow> Some (newToken, d))))"

text \<open>
  \<open>getValidAuthToken userId now remote now' st\<close>: \<open>now\<close> is \<^verbatim>\<open>Date.now()\<close> at the local
  check, \<open>remote\<close> what \<^verbatim>\<open>await apiService.auth.getEbayUserToken(userId)\<close> gives, \<open>now'\<close>
  is \<^verbatim>\<open>Date.now()\<close> when the new record is written. The result is the promise the
  \<^verbatim>\<open>async\<close> function returns, with the state it leaves.
\<close>

definition getValidAuthToken ::
  "string \<Rightarrow> int \<Rightarrow> auth_response option promise \<Rightarrow> int \<Rightarrow> home \<Rightarrow> jsval promise \<times> home" where
  "getValidAuthToken userId now remote now' st =
     (case local_token now (getItem st ''ebay_user_token'') of
        Some val \<Rightarrow> (Resolved val, st)
      | None \<Rightarrow>
          (let st1 = call (GetEbayUserToken userId) st in
           case remote of
             Rejected err \<Rightarrow> (Resolved JNull, st1)
           | Resolved resp \<Rightarrow>
               (case token_reply resp of
                  Some (newToken, d) \<Rightarrow>
                    (Resolved (JStr newToken),
                     setItem ''ebay_user_token''
                       (token_record (JStr newToken) (expiry_after now' (expires_in_seconds d)))
                       st1)
                | None \<Rightarrow> (Resolved JNull, st1))))"

section \<open>The page (\<^verbatim>\<open>Home.jsx\<close>)\<close>

subsection \<open>The OAuth popup message handler\<close>

record message_data =
  code :: "string option"
  state :: "string option"
  expires_in_m :: "int option"

record message_event =
  origin :: string
  data_e :: "message_data option"

text \<open>
  \<open>handleMessage window_origin user event exchange now st\<close>. The first component of the
  result is the error that escapes the handler, if one does: destructuring
  \<^verbatim>\<open>event.data\<close> is outside the \<^verbatim>\<open>try\<close>. Inside it every error is caught and logged:
  a rejected exchange, the \<^verbatim>\<open>throw\<close> on \<^verbatim>\<open>!resp.success\<close>, and reading
  \<^verbatim>\<open>resp.data.expires_in\<close> when \<^verbatim>\<open>resp.data\<close> is absent (after \<open>userId\<close> was stored).
\<close>

definition handleMessage ::
  "string \<Rightarrow> user option \<Rightarrow> message_event \<Rightarrow> auth_response promise \<Rightarrow> int \<Rightarrow> home
     \<Rightarrow> js_error option \<times> home" where
  "handleMessage window_origin usr event exchange now st =
     (if origin event \<noteq> window_origin then (None, st)
      else
        (case data_e event of
           None \<Rightarrow> (Some TypeError, st)
         | Some msg \<Rightarrow>
             (case (code msg, usr) of
                (Some c, Some u) \<Rightarrow>
                  if c = [] \<or> uid u = [] then (None, st)
                  else
                    (let st1 = call (ExchangeCode c (uid u)) st in
                     case exchange of
                       Rejected err \<Rightarrow> (None, st1)
                     | Resolved resp \<Rightarrow>
                         if \<not> success resp then (None, st1)
                         else
                           (let st2 = setItem ''userId'' (uid u) st1 in
                            case data resp of
                              None \<Rightarrow> (None, st2)
                            | Some d \<Rightarrow>
                                (let expiresIn = or_7200 (expires_in d);
                                     expiresAt = now + expiresIn * 1000;
                                     st3 = setItem ''ebay_user_token''
                                             (token_record (opt_str (access_token d)) (JNum expiresAt))
                                             st2;
                                     st4 = (case refresh_token d of
                                              None \<Rightarrow> st3
                                            | Some rt \<Rightarrow>
                                                if rt = [] then st3
                                                else setItem ''ebay_refresh_token'' rt st3)
                                 in (None, st4\<lparr>ebayToken := opt_str (access_token d),
                                                needsConnection := False\<rparr>))))
              | _ \<Rightarrow> (None, st))))"

subsection \<open>The mount-time token check\<close>

text \<open>
  \<open>checkToken user now remote now' st\<close>, with the arguments of \<open>getValidAuthToken\<close>.
  \<open>checkToken_local\<close> is its first step, \<^verbatim>\<open>if (localToken) { setEbayToken(localToken);
  setNeedsConnection(false); }\<close>, before the backend is asked.
  \<^verbatim>\<open>localStorage.setItem('ebay_user_token', token)\<close> stores \<^verbatim>\<open>String(token)\<close>.
\<close>

definition checkToken_local :: "string option \<Rightarrow> home \<Rightarrow> home" where
  "checkToken_local localToken st =
     (case localToken of
        None \<Rightarrow> st
      | Some raw \<Rightarrow>
          if raw = [] then st
          else st\<lparr>ebayToken := JStr raw, needsConnection := False\<rparr>)"

definition checkToken ::
  "user option \<Rightarrow> int \<Rightarrow> auth_response option promise \<Rightarrow> int \<Rightarrow> home \<Rightarrow> home" where
  "checkToken usr now remote now' st =
     (case usr of
        None \<Rightarrow> st
      | Some u \<Rightarrow>
          if uid u = [] then st
          else
            (let localToken = getItem st ''ebay_user_token'';
                 has_local = (case localToken of None \<Rightarrow> False | Some raw \<Rightarrow> raw \<noteq> []);
                 st1 = checkToken_local localToken st
             in case getValidAuthToken (uid u) now remote now' st1 of
                  (Resolved token, st2) \<Rightarrow>
                    if truthy token then
                      (setItem ''ebay_user_token'' (to_String token) st2)
                        \<lparr>ebayToken := token, needsConnection := False\<rparr>
                    else if \<not> has_local then st2\<lparr>needsConnection := True\<rparr>
                    else st2
                | (Rejected err, st2) \<Rightarrow>
                    if \<not> has_local then st2\<lparr>needsConnection := True\<rparr> else st2))"

text \<open>What \<open>checkToken\<close> takes for "no token": a rejected validator, or a falsy value.\<close>

definition no_token :: "jsval promise \<Rightarrow> bool" where
  "no_token p = (case p of Rejected err \<Rightarrow> True | Resolved token \<Rightarrow> \<not> truthy token)"

subsection \<open>The listings fetch\<close>

text \<open>
  Clearing the token state, as both the refresh-failure branch and the 401 branch do:
  the two \<^verbatim>\<open>removeItem\<close> calls, \<^verbatim>\<open>setEbayToken(null)\<close>, \<^verbatim>\<open>setNeedsConnection(true)\<close>.
\<close>

definition clear_tokens :: "home \<Rightarrow> home" where
  "clear_tokens st =
     (removeItem ''ebay_refresh_token'' (removeItem ''ebay_user_token'' st))
       \<lparr>ebayToken := JNull, needsConnection := True\<rparr>"

text \<open>\<^verbatim>\<open>x || dflt\<close> on a string that may be absent: the empty string is falsy.\<close>

definition or_else :: "string option \<Rightarrow> string \<Rightarrow> string" where
  "or_else x dflt = (case x of None \<Rightarrow> dflt | Some s \<Rightarrow> if s = [] then dflt else s)"

text \<open>
  The test \<^verbatim>\<open>refreshed?.success && refreshed.data?.access_token\<close>: the token (a
  non-empty string) and the data it came in, when the test passes.
\<close>

definition refreshed_ok :: "auth_response option \<Rightarrow> (string \<times> token_data) option" where
  "refreshed_ok refreshed =
     (case refreshed of
        None \<Rightarrow> None
      | Some r \<Rightarrow>
          if \<not> success r then None
          else
            (case data r of
               None \<Rightarrow> None
             | Some d \<Rightarrow>
                 (case access_token d of
                    None \<Rightarrow> None
                  | Some tok \<Rightarrow> if tok = [] then None else Some (tok, d))))"

text \<open>
  The \<^verbatim>\<open>try\<close> block of \<^verbatim>\<open>fetchListings\<close>. The first component is the error thrown
  out of the block, if any, with the state at the throw: a rejected listings call, reading
  \<^verbatim>\<open>user.id\<close> of an absent user, or a rejected refresh call.
\<close>

definition fetchListings_try ::
  "user option \<Rightarrow> listings_response promise \<Rightarrow> auth_response option promise \<Rightarrow> int \<Rightarrow> home
     \<Rightarrow> js_error option \<times> home" where
  "fetchListings_try usr listings refresh now st =
     (let st1 = call (GetActiveListings (ebayToken st)) st in
      case listings of
        Rejected err \<Rightarrow> (Some err, st1)
      | Resolved resp \<Rightarrow>
          if success_l resp then (None, st1)
          else if first_errorId resp = Some 932 then
            (case usr of
               None \<Rightarrow> (Some TypeError, st1)
             | Some u \<Rightarrow>
                 (let st2 = call (RefreshEbayUserToken (uid u)) st1 in
                  case refresh of
                    Rejected err \<Rightarrow> (Some err, st2)
                  | Resolved refreshed \<Rightarrow>
                      (case refreshed_ok refreshed of
                         Some (tok, d) \<Rightarrow>
                           (let expires = or_7200 (expires_in d);
                                st3 = setItem ''ebay_user_token''
                                        (token_record (JStr tok) (JNum (now + expires * 1000)))
                                        st2
                            in (None, st3\<lparr>ebayToken := JStr tok\<rparr>))
                       | None \<Rightarrow> (None, clear_tokens st2))))
          else
            (None, st1\<lparr>listingsError := Some (or_else (error_l resp) ''Failed to load listings.'')\<rparr>))"

text \<open>The \<^verbatim>\<open>catch\<close> block: a 401 clears the tokens and the error, anything else is shown.\<close>

definition fetchListings_catch :: "js_error \<Rightarrow> home \<Rightarrow> home" where
  "fetchListings_catch err st =
     (if response_status err = Some 401 \<or> status err = Some 401 then
        (clear_tokens st)\<lparr>listingsError := None\<rparr>
      else st\<lparr>listingsError := Some (or_else (Some (message err)) ''Error loading listings.'')\<rparr>)"

text \<open>
  \<open>fetchListings user listings refresh now st\<close>: \<open>listings\<close> and \<open>refresh\<close> are what the
  two awaited calls give, \<open>now\<close> is \<^verbatim>\<open>Date.now()\<close> when the refreshed record is written.
\<close>

definition fetchListings ::
  "user option \<Rightarrow> listings_response promise \<Rightarrow> auth_response option promise \<Rightarrow> int \<Rightarrow> home
     \<Rightarrow> home" where
  "fetchListings usr listings refresh now st =
     (let st0 = st\<lparr>loadingListings := True, listingsError := None\<rparr>;
          st' = (case fetchListings_try usr listings refresh now st0 of
                   (None, st1) \<Rightarrow> st1
                 | (Some err, st1) \<Rightarrow> fetchListings_catch err st1)
      in st'\<lparr>loadingListings := False\<rparr>)"

text \<open>
  The effect that owns \<open>fetchListings\<close>:
  \<^verbatim>\<open>useEffect(() => { if (!ebayToken) return; ...; fetchListings(); }, [ebayToken, user])\<close>.
\<close>

definition listings_effect ::
  "user option \<Rightarrow> listings_response promise \<Rightarrow> auth_response option promise \<Rightarrow> int \<Rightarrow> home
     \<Rightarrow> home" where
  "listings_effect usr listings refresh now st =
     (if \<not> truthy (ebayToken st) then st else fetchListings usr listings refresh now st)"

text \<open>
  The hook runs the effect after the first render and after every render in which a
  dependency differs from its value at the previous run (on strings, the tokens of this
  page, that is inequality). With the user fixed, the one dependency that moves is
  \<open>ebayToken\<close>. \<open>run_listings_effect user envs prev st\<close> runs
  the effect until the page is quiescent: \<open>prev\<close> is the token the effect last ran with
  (\<open>None\<close> before the first run), \<open>envs\<close> gives, run by run, what the network answers
  and the time. \<open>None\<close>: the answers given ran out before quiescence.
\<close>

record fetch_env =
  listings_reply :: "listings_response promise"
  refresh_reply :: "auth_response option promise"
  clock :: int

fun run_listings_effect ::
  "user option \<Rightarrow> fetch_env list \<Rightarrow> jsval option \<Rightarrow> home \<Rightarrow> home option" where
  "run_listings_effect usr [] prev st = (if prev = Some (ebayToken st) then Some st else None)"
| "run_listings_effect usr (e # es) prev st =
     (if prev = Some (ebayToken st) then Some st
      else run_listings_effect usr es (Some (ebayToken st))
             (listings_effect usr (listings_reply e) (refresh_reply e) (clock e) st))"

text \<open>The listings calls in a trace, each with the token it was made with.\<close>

fun listings_calls :: "effect list \<Rightarrow> jsval list" where
  "listings_calls [] = []"
| "listings_calls (Call (GetActiveListings t) # es) = t # listings_calls es"
| "listings_calls (e # es) = listings_calls es"

subsection \<open>The global signals\<close>

definition handleTokenExpiry :: "home \<Rightarrow> home" where
  "handleTokenExpiry st = st\<lparr>ebayToken := JNull, needsConnection := True, listingsError := None\<rparr>"

definition handleAuthFailure :: "home \<Rightarrow> home" where
  "handleAuthFailure st =
     reload
       (removeItem ''user_id''
         (removeItem ''userId''
           (removeItem ''ebay_refresh_token''
             (removeItem ''ebay_user_token''
               (removeItem ''user-store'' st)))))"

subsection \<open>Scenarios\<close>

text \<open>
  The concrete data of the scenarios below: a seller, the replies of the APIs, the
  errors a call can be rejected with, and a page that holds a token.
\<close>

definition seller :: user where
  "seller = \<lparr>uid = ''u1''\<rparr>"

definition listings_ok :: listings_response where
  "listings_ok = \<lparr>success_l = True, error_l = None, errors = None\<rparr>"

definition listings_expired :: listings_response where
  "listings_expired =
     \<lparr>success_l = False, error_l = None, errors = Some [\<lparr>errorId = Some 932\<rparr>]\<rparr>"

definition network_error :: js_error where
  "network_error = \<lparr>message = ''Network Error'', status = None, response_status = None\<rparr>"

definition unauthorized :: js_error where
  "unauthorized =
     \<lparr>message = ''Request failed with status code 401'', status = None,
      response_status = Some 401\<rparr>"

definition refresh_failed :: auth_response where
  "refresh_failed = \<lparr>success = False, error = None, data = None\<rparr>"

definition token_reply_of :: "string \<Rightarrow> int option \<Rightarrow> auth_response" where
  "token_reply_of tok seconds =
     \<lparr>success = True, error = None,
      data = Some \<lparr>access_token = Some tok, refresh_token = None, expires_in = seconds,
                   expires_in_seconds = seconds\<rparr>\<rparr>"

definition connected :: home where
  "connected =
     (initial [''ebay_user_token'' \<mapsto> token_record (JStr ''old'') (JNum 500),
               ''ebay_refresh_token'' \<mapsto> ''r1''])
       \<lparr>ebayToken := JStr ''old''\<rparr>"

section \<open>What is written is read back\<close>

text \<open>
  The reader inverts the writer on the records the program stores: for every string
  \<open>v\<close> and integer \<open>e\<close>, \<open>JSON_parse\<close> of \<open>token_record (JStr v) (JNum e)\<close> is the
  object with these two members. The proof goes through the characters (each escape is
  read back as the character it stands for), the digits, and the two members.
\<close>

lemma digit_of_digit_char: "d < 10 \<Longrightarrow> digit_of (digit_char d) = Some d"
  unfolding digit_of_def digit_char_def by auto

lemma hex_of_hex_char: "d < 16 \<Longrightarrow> hex_of (hex_char d) = Some d"
proof -
  assume "d < 16"
  then consider "d < 10" | "d = 10" | "d = 11" | "d = 12" | "d = 13" | "d = 14" | "d = 15"
    by linarith
  then show ?thesis
  proof cases
    case 1
    then show ?thesis by (simp add: hex_of_def hex_char_def digit_of_digit_char)
  qed (simp_all add: hex_of_def hex_char_def digit_of_def)
qed

lemma nibble_less: "nibble a b c d < 16"
  by (simp add: nibble_def)

lemma char_of_nibbles_nibble:
  "char_of_nibbles (nibble b4 b5 b6 b7) (nibble b0 b1 b2 b3) = Char b0 b1 b2 b3 b4 b5 b6 b7"
  by (cases b0; cases b1; cases b2; cases b3; cases b4; cases b5; cases b6; cases b7;
      simp add: char_of_nibbles_def nibble_def)

lemma hex_of_zero: "hex_of (CHR ''0'') = Some 0"
  by (simp add: hex_of_def digit_of_def)

lemma unicode_escape_control:
  "is_control c \<Longrightarrow>
   unicode_escape (CHR ''0'') (CHR ''0'')
     (hex_char (nibble (digit4 c) (digit5 c) (digit6 c) (digit7 c)))
     (hex_char (nibble (digit0 c) (digit1 c) (digit2 c) (digit3 c))) = Some c"
  by (cases c) (simp add: unicode_escape_def hex_of_hex_char nibble_less char_of_nibbles_nibble hex_of_zero)

lemma parse_chars_escape:
  "parse_chars (escape_char c @ rest) = cons_char c (parse_chars rest)"
proof -
  consider "c = quote" | "c = backslash" | "c = CHR 0x08" | "c = CHR 0x09" | "c = CHR 0x0A"
    | "c = CHR 0x0C" | "c = CHR 0x0D"
    | "c \<noteq> quote" "c \<noteq> backslash" "c \<noteq> CHR 0x08" "c \<noteq> CHR 0x09" "c \<noteq> CHR 0x0A"
      "c \<noteq> CHR 0x0C" "c \<noteq> CHR 0x0D" "is_control c"
    | "c \<noteq> quote" "c \<noteq> backslash" "\<not> is_control c"
    by blast
  then show ?thesis
  proof cases
    case 8
    then show ?thesis
      by (simp add: escape_char_def unicode_escape_control) (simp add: quote_def backslash_def)
  next
    case 9
    then show ?thesis
      by (auto simp add: escape_char_def is_control_def quote_def backslash_def)
  qed (simp_all add: escape_char_def simple_escape_def quote_def backslash_def)
qed

lemma parse_chars_quoted:
  "parse_chars (concat (map escape_char s) @ quote # rest) = Some (s, rest)"
  by (induction s) (simp_all add: parse_chars_escape cons_char_def)


lemma read_digits_show_nat:
  "read_digits a (show_nat n @ r) = read_digits (a * 10 ^ length (show_nat n) + n) r"
proof (induction n arbitrary: a r rule: show_nat.induct)
  case (1 n)
  show ?case
  proof (cases "n < 10")
    case True
    then show ?thesis
      by (subst (1 2) show_nat.simps) (simp add: digit_of_digit_char mult.commute)
  next
    case False
    have "read_digits a (show_nat n @ r) =
          read_digits a (show_nat (n div 10) @ (digit_char (n mod 10) # r))"
      using False by (subst show_nat.simps) simp
    also have "\<dots> = read_digits (a * 10 ^ length (show_nat (n div 10)) + n div 10)
                        (digit_char (n mod 10) # r)"
      using False by (rule "1.IH")
    also have "\<dots> = read_digits (10 * (a * 10 ^ length (show_nat (n div 10)) + n div 10) + n mod 10) r"
      by (simp add: digit_of_digit_char)
    also have "10 * (a * 10 ^ length (show_nat (n div 10)) + n div 10) + n mod 10
               = a * 10 ^ length (show_nat n) + n"
      using False by (subst (2) show_nat.simps) (simp add: algebra_simps)
    finally show ?thesis .
  qed
qed

lemma show_nat_head:
  "\<exists>d cs. show_nat n = digit_char d # cs \<and> d < 10 \<and> (0 < n \<longrightarrow> 0 < d)"
proof (induction n rule: show_nat.induct)
  case (1 n)
  show ?case
  proof (cases "n < 10")
    case True
    then show ?thesis by (subst show_nat.simps) auto
  next
    case False
    from "1.IH" [OF False]
    obtain d cs where "show_nat (n div 10) = digit_char d # cs" "d < 10" "0 < n div 10 \<longrightarrow> 0 < d"
      by auto
    moreover have "0 < n div 10" using False by simp
    ultimately show ?thesis using False by (subst show_nat.simps) auto
  qed
qed

lemma read_digits_stop: "(case r of [] \<Rightarrow> True | c # cs \<Rightarrow> digit_of c = None) \<Longrightarrow> read_digits a r = (a, r)"
  by (cases r) simp_all

lemma parse_nat_show_nat:
  assumes "case r of [] \<Rightarrow> True | c # cs \<Rightarrow> digit_of c = None"
  shows "parse_nat (show_nat n @ r) = Some (n, r)"
proof (cases "n = 0")
  case True
  then show ?thesis
    by (subst show_nat.simps) (simp add: parse_nat_def digit_char_def digit_of_def)
next
  case False
  obtain d cs where h: "show_nat n = digit_char d # cs" "d < 10" "0 < d"
    using show_nat_head [of n] False by auto
  have "parse_nat (show_nat n @ r) = Some (read_digits 0 (show_nat n @ r))"
    using h by (simp add: parse_nat_def digit_of_digit_char)
  also have "\<dots> = Some (n, r)"
    by (simp add: read_digits_show_nat read_digits_stop [OF assms])
  finally show ?thesis .
qed

lemma digit_char_not_minus: "digit_char d \<noteq> CHR ''-''"
  by (simp add: digit_char_def)

lemma parse_number_show_int:
  assumes "case r of [] \<Rightarrow> True | c # cs \<Rightarrow> digit_of c = None"
  shows "parse_number (show_int i @ r) = Some (JNum i, r)"
proof (cases "i < 0")
  case True
  then show ?thesis
    by (simp add: parse_number_def show_int_def parse_nat_show_nat [OF assms])
next
  case False
  obtain d cs where h: "show_nat (nat i) = digit_char d # cs"
    using show_nat_head [of "nat i"] by auto
  have "parse_number (show_nat (nat i) @ r) = Some (JNum i, r)"
    using parse_nat_show_nat [OF assms, of "nat i"] False h
    by (simp add: parse_number_def digit_char_not_minus)
  then show ?thesis using False by (simp add: show_int_def)
qed

lemma show_int_head:
  "\<exists>c cs. show_int i = c # cs \<and> \<not> is_ws c \<and> c \<noteq> CHR ''{'' \<and> c \<noteq> CHR ''['' \<and> c \<noteq> quote
      \<and> c \<noteq> CHR ''t'' \<and> c \<noteq> CHR ''f'' \<and> c \<noteq> CHR ''n''"
proof (cases "i < 0")
  case True
  then show ?thesis by (simp add: show_int_def is_ws_def quote_def)
next
  case False
  obtain d cs where h: "show_nat (nat i) = digit_char d # cs"
    using show_nat_head [of "nat i"] by auto
  show ?thesis using False h by (simp add: show_int_def is_ws_def quote_def digit_char_def)
qed

lemma parse_value_show_int:
  assumes "case r of [] \<Rightarrow> True | c # cs \<Rightarrow> digit_of c = None"
  shows "parse_value (Suc n) (show_int i @ r) = Some (JNum i, r)"
proof -
  obtain c cs where h: "show_int i = c # cs" "\<not> is_ws c" "c \<noteq> CHR ''{''" "c \<noteq> CHR ''[''"
    "c \<noteq> quote" "c \<noteq> CHR ''t''" "c \<noteq> CHR ''f''" "c \<noteq> CHR ''n''"
    using show_int_head [of i] by blast
  have "parse_value (Suc n) (show_int i @ r) = parse_number (show_int i @ r)"
    using h by simp
  then show ?thesis by (simp add: parse_number_show_int [OF assms])
qed

lemma parse_value_quoted:
  "parse_value (Suc n) (quote_string s @ r) = Some (JStr s, r)"
  by (simp add: quote_string_def parse_chars_quoted) (simp add: quote_def is_ws_def)

lemma parse_chars_key_value:
  "parse_chars (''value'' @ quote # r) = Some (''value'', r)"
  by (simp add: quote_def backslash_def is_control_def cons_char_def)

lemma parse_chars_key_expiry:
  "parse_chars (''expiry'' @ quote # r) = Some (''expiry'', r)"
  by (simp add: quote_def backslash_def is_control_def cons_char_def)

lemma quote_string_key_value: "quote_string ''value'' = quote # ''value'' @ [quote]"
  by (simp add: quote_string_def escape_char_def quote_def backslash_def is_control_def)

lemma quote_string_key_expiry: "quote_string ''expiry'' = quote # ''expiry'' @ [quote]"
  by (simp add: quote_string_def escape_char_def quote_def backslash_def is_control_def)

lemma token_record_text:
  "token_record (JStr v) (JNum e) =
     CHR ''{'' # quote # ''value'' @ quote # CHR '':'' # quote_string v
       @ CHR '','' # quote # ''expiry'' @ quote # CHR '':'' # show_int e @ ''}''"
  by (simp add: token_record_def JSON_stringify_def quote_string_key_value quote_string_key_expiry)

lemma parse_members_record:
  "parse_members (Suc (Suc (Suc n)))
     (quote # ''value'' @ quote # CHR '':'' # quote_string v
       @ CHR '','' # quote # ''expiry'' @ quote # CHR '':'' # show_int e @ ''}'')
   = Some ([(''value'', JStr v), (''expiry'', JNum e)], [])"
proof -
  have ws: "\<not> is_ws quote" "\<not> is_ws (CHR '':'')" "\<not> is_ws (CHR '','')" "\<not> is_ws (CHR ''}'')"
    by (simp_all add: is_ws_def quote_def)
  have stop: "case ''}'' of [] \<Rightarrow> True | c # cs \<Rightarrow> digit_of c = None"
    by (simp add: digit_of_def)
  have inner: "parse_members (Suc (Suc n)) (quote # ''expiry'' @ quote # CHR '':'' # show_int e @ ''}'')
      = Some ([(''expiry'', JNum e)], [])"
    using parse_chars_key_expiry [of "CHR '':'' # show_int e @ ''}''"]
      parse_value_show_int [OF stop, of n e] ws
    by (simp del: parse_value.simps parse_chars.simps)
  have val: "parse_value (Suc (Suc n)) (quote_string v @ CHR '','' # quote # ''expiry'' @ quote # CHR '':'' # show_int e @ ''}'')
     = Some (JStr v, CHR '','' # quote # ''expiry'' @ quote # CHR '':'' # show_int e @ ''}'')"
    by (rule parse_value_quoted)
  show ?thesis
    using parse_chars_key_value [of "CHR '':'' # quote_string v @ CHR '','' # quote # ''expiry'' @ quote # CHR '':'' # show_int e @ ''}''"]
      val inner ws
    by (simp del: parse_value.simps parse_chars.simps)
qed

lemma parse_value_token_record:
  "parse_value (Suc (Suc (Suc (Suc n)))) (token_record (JStr v) (JNum e))
   = Some (JObj [(''value'', JStr v), (''expiry'', JNum e)], [])"
proof -
  have q: "quote \<noteq> CHR ''}''" "\<not> is_ws quote" "\<not> is_ws (CHR ''{'')"
    by (simp_all add: quote_def is_ws_def)
  show ?thesis
    unfolding token_record_text
    using parse_members_record [of n v e] q
    by (simp del: parse_members.simps)
qed

lemma JSON_parse_token_record:
  "JSON_parse (token_record (JStr v) (JNum e)) = Some (JObj [(''value'', JStr v), (''expiry'', JNum e)])"
proof -
  obtain k where "length (token_record (JStr v) (JNum e)) = Suc (Suc (Suc k))"
    unfolding token_record_text by simp
  then show ?thesis
    by (simp add: JSON_parse_def parse_value_token_record del: parse_value.simps)
qed

section \<open>The depth bound of the reader\<close>

text \<open>
  The bound on the depth of the calls in \<open>JSON_parse\<close> loses nothing: a larger bound
  never changes a result, a successful read needs no more depth than the characters it
  consumes, and so whatever can be read with any bound is read by \<open>JSON_parse\<close>.
\<close>

lemma parse_fuel_Suc:
  "(parse_value n s \<noteq> None \<longrightarrow> parse_value (Suc n) s = parse_value n s)
   \<and> (parse_elements n s \<noteq> None \<longrightarrow> parse_elements (Suc n) s = parse_elements n s)
   \<and> (parse_members n s \<noteq> None \<longrightarrow> parse_members (Suc n) s = parse_members n s)"
proof (induction n arbitrary: s)
  case 0
  show ?case by simp
next
  case (Suc n)
  have IHv: "parse_value (Suc n) t = parse_value n t" if "parse_value n t \<noteq> None" for t
    using Suc.IH that by blast
  have IHe: "parse_elements (Suc n) t = parse_elements n t" if "parse_elements n t \<noteq> None" for t
    using Suc.IH that by blast
  have IHm: "parse_members (Suc n) t = parse_members n t" if "parse_members n t \<noteq> None" for t
    using Suc.IH that by blast
  have e: "parse_elements (Suc (Suc n)) s = parse_elements (Suc n) s"
    if h: "parse_elements (Suc n) s \<noteq> None"
  proof (cases "parse_value n s")
    case None
    with h show ?thesis by simp
  next
    case (Some p)
    obtain v r where p: "p = (v, r)" by (cases p)
    have v': "parse_value (Suc n) s = Some (v, r)" using IHv [of s] Some p by simp
    show ?thesis
    proof (cases "skip_ws r")
      case Nil
      with h Some p show ?thesis by simp
    next
      case (Cons c cs)
      show ?thesis
      proof (cases "c = CHR '',''")
        case True
        then have "parse_elements n cs \<noteq> None"
          using h Some p Cons by (auto split: option.splits)
        from IHe [OF this] show ?thesis
          unfolding parse_elements.simps(2) [of "Suc n"] parse_elements.simps(2) [of n]
          by (simp add: v' Some p Cons True del: parse_value.simps parse_elements.simps)
      next
        case False
        show ?thesis
          unfolding parse_elements.simps(2) [of "Suc n"] parse_elements.simps(2) [of n]
          by (simp add: v' Some p Cons False del: parse_value.simps parse_elements.simps)
      qed
    qed
  qed
  have v: "parse_value (Suc (Suc n)) s = parse_value (Suc n) s"
    if h: "parse_value (Suc n) s \<noteq> None"
  proof (cases "skip_ws s")
    case Nil
    then show ?thesis by simp
  next
    case (Cons c cs)
    consider (obj) "c = CHR ''{''" | (arr) "c \<noteq> CHR ''{''" "c = CHR ''[''"
      | (other) "c \<noteq> CHR ''{''" "c \<noteq> CHR ''[''"
      by blast
    then show ?thesis
    proof cases
      case obj
      show ?thesis
      proof (cases "skip_ws cs")
        case Nil
        with Cons obj show ?thesis by simp
      next
        case inner: (Cons d ds)
        show ?thesis
        proof (cases "d = CHR ''}''")
          case True
          with Cons obj inner show ?thesis by simp
        next
          case False
          then have "parse_members n cs \<noteq> None"
            using h Cons obj inner by (auto split: option.splits)
          from IHm [OF this] show ?thesis
            unfolding parse_value.simps(2) [of "Suc n"] parse_value.simps(2) [of n]
            by (simp add: Cons obj inner False
                del: parse_value.simps parse_elements.simps parse_members.simps)
        qed
      qed
    next
      case arr
      show ?thesis
      proof (cases "skip_ws cs")
        case Nil
        with Cons arr show ?thesis by simp
      next
        case inner: (Cons d ds)
        show ?thesis
        proof (cases "d = CHR '']''")
          case True
          with Cons arr inner show ?thesis by simp
        next
          case False
          then have "parse_elements n cs \<noteq> None"
            using h Cons arr inner by (auto split: option.splits)
          from IHe [OF this] show ?thesis
            unfolding parse_value.simps(2) [of "Suc n"] parse_value.simps(2) [of n]
            by (simp add: Cons arr inner False
                del: parse_value.simps parse_elements.simps parse_members.simps)
        qed
      qed
    next
      case other
      show ?thesis
        unfolding parse_value.simps(2) [of "Suc n"] parse_value.simps(2) [of n]
        by (simp add: Cons other del: parse_value.simps parse_elements.simps parse_members.simps)
    qed
  qed
  have m: "parse_members (Suc (Suc n)) s = parse_members (Suc n) s"
    if h: "parse_members (Suc n) s \<noteq> None"
  proof -
    from h obtain ks k r cs v r' e es where f:
      "skip_ws s = quote # ks" "parse_chars ks = Some (k, r)" "skip_ws r = CHR '':'' # cs"
      "parse_value n cs = Some (v, r')" "skip_ws r' = e # es"
      "e = CHR ''}'' \<or> (e \<noteq> CHR ''}'' \<and> e = CHR '','' \<and> parse_members n es \<noteq> None)"
      by (auto split: list.splits option.splits if_splits)
    have v': "parse_value (Suc n) cs = Some (v, r')" using IHv [of cs] f(4) by simp
    from f(6) show ?thesis
    proof
      assume "e = CHR ''}''"
      then show ?thesis
        unfolding parse_members.simps(2) [of "Suc n"] parse_members.simps(2) [of n]
        by (simp add: f v' del: parse_value.simps parse_elements.simps parse_members.simps)
    next
      assume a: "e \<noteq> CHR ''}'' \<and> e = CHR '','' \<and> parse_members n es \<noteq> None"
      then have "parse_members (Suc n) es = parse_members n es" using IHm by blast
      with a show ?thesis
        unfolding parse_members.simps(2) [of "Suc n"] parse_members.simps(2) [of n]
        by (simp add: f v' del: parse_value.simps parse_elements.simps parse_members.simps)
    qed
  qed
  from v e m show ?case by blast
qed

lemma parse_value_fuel_mono:
  "parse_value n s = Some x \<Longrightarrow> n \<le> m \<Longrightarrow> parse_value m s = Some x"
proof (induction m)
  case 0
  then show ?case by simp
next
  case (Suc m)
  show ?case
  proof (cases "n = Suc m")
    case True
    with Suc.prems show ?thesis by simp
  next
    case False
    with Suc have "parse_value m s = Some x" by simp
    then show ?thesis using parse_fuel_Suc [of m s] by simp
  qed
qed


lemma parse_elements_fuel_mono:
  "parse_elements n s = Some x \<Longrightarrow> n \<le> m \<Longrightarrow> parse_elements m s = Some x"
proof (induction m)
  case 0
  then show ?case by simp
next
  case (Suc m)
  show ?case
  proof (cases "n = Suc m")
    case True
    with Suc.prems show ?thesis by simp
  next
    case False
    with Suc have "parse_elements m s = Some x" by simp
    then show ?thesis using parse_fuel_Suc [of m s] by simp
  qed
qed

lemma parse_members_fuel_mono:
  "parse_members n s = Some x \<Longrightarrow> n \<le> m \<Longrightarrow> parse_members m s = Some x"
proof (induction m)
  case 0
  then show ?case by simp
next
  case (Suc m)
  show ?case
  proof (cases "n = Suc m")
    case True
    with Suc.prems show ?thesis by simp
  next
    case False
    with Suc have "parse_members m s = Some x" by simp
    then show ?thesis using parse_fuel_Suc [of m s] by simp
  qed
qed

lemma skip_ws_length: "length (skip_ws s) \<le> length s"
  by (induction s) auto

lemma skip_ws_Cons_length: "skip_ws s = c # cs \<Longrightarrow> length cs < length s"
  using skip_ws_length [of s] by simp

lemma parse_chars_length: "parse_chars s = Some (x, r) \<Longrightarrow> length r < length s"
proof (induction s arbitrary: x r rule: parse_chars.induct)
  case 1
  then show ?case by simp
next
  case (2 c cs)
  from "2.prems" show ?case
    apply (simp add: cons_char_def split: if_splits list.splits option.splits prod.splits)
    using "2.IH" apply (fastforce+)
    done
qed


lemma strip_prefix_length: "strip_prefix p s = Some r \<Longrightarrow> length r \<le> length s"
  by (induction p s rule: strip_prefix.induct) (auto split: if_splits)

lemma read_digits_length: "read_digits a s = (n, r) \<Longrightarrow> length r \<le> length s"
  by (induction a s rule: read_digits.induct) (auto split: option.splits)

lemma parse_nat_length: "parse_nat s = Some (n, r) \<Longrightarrow> length r < length s"
  by (cases s) (auto simp add: parse_nat_def less_Suc_eq_le split: option.splits if_splits
      dest: read_digits_length)

lemma parse_number_length: "parse_number s = Some (v, r) \<Longrightarrow> length r < length s"
  by (cases s) (auto simp add: parse_number_def split: option.splits if_splits
      dest!: parse_nat_length)

lemma parse_value_leaf:
  assumes "skip_ws s = c # cs" "c \<noteq> CHR ''{''" "c \<noteq> CHR ''[''"
  shows "parse_value (Suc n) s = parse_value (Suc 0) s"
  unfolding parse_value.simps(2) [of n] parse_value.simps(2) [of 0]
  using assms by (simp del: parse_value.simps parse_elements.simps parse_members.simps)

lemma parse_value_leaf_length:
  assumes "skip_ws s = c # cs" "c \<noteq> CHR ''{''" "c \<noteq> CHR ''[''"
    and "parse_value (Suc n) s = Some (v, r)"
  shows "length r < length s"
proof -
  have l: "length cs < length s" by (rule skip_ws_Cons_length [OF assms(1)])
  from assms(4) have "length r \<le> length cs \<or> length r < length (c # cs)"
    unfolding parse_value.simps(2) [of n]
    using assms(1,2,3)
    by (auto simp del: parse_value.simps parse_elements.simps parse_members.simps
        split: if_splits option.splits
        dest: parse_chars_length strip_prefix_length parse_number_length less_imp_le)
  with l show ?thesis by auto
qed


lemma parse_fuel_consumed:
  "(parse_value n s = Some (v, r)
      \<longrightarrow> length r < length s \<and> parse_value (length s - length r) s = Some (v, r))
   \<and> (parse_elements n s = Some (vs, r)
      \<longrightarrow> length r < length s \<and> parse_elements (length s - length r) s = Some (vs, r))
   \<and> (parse_members n s = Some (fs, r)
      \<longrightarrow> length r < length s \<and> parse_members (length s - length r) s = Some (fs, r))"
proof (induction n arbitrary: s v vs fs r)
  case 0
  show ?case by simp
next
  case (Suc n)
  have IHv: "length r' < length t \<and> parse_value (length t - length r') t = Some (a, r')"
    if "parse_value n t = Some (a, r')" for t a r'
    using Suc.IH that by blast
  have IHe: "length r' < length t \<and> parse_elements (length t - length r') t = Some (a, r')"
    if "parse_elements n t = Some (a, r')" for t a r'
    using Suc.IH that by blast
  have IHm: "length r' < length t \<and> parse_members (length t - length r') t = Some (a, r')"
    if "parse_members n t = Some (a, r')" for t a r'
    using Suc.IH that by blast
  have val: "length r < length s \<and> parse_value (length s - length r) s = Some (v, r)"
    if h: "parse_value (Suc n) s = Some (v, r)"
  proof -
    from h obtain c cs where Cons: "skip_ws s = c # cs"
      by (auto split: list.splits)
    have lcs: "length cs < length s" by (rule skip_ws_Cons_length [OF Cons])
    consider (obj) "c = CHR ''{''" | (arr) "c \<noteq> CHR ''{''" "c = CHR ''[''"
      | (other) "c \<noteq> CHR ''{''" "c \<noteq> CHR ''[''"
      by blast
    then show ?thesis
    proof cases
      case obj
      from h Cons obj obtain d ds where inner: "skip_ws cs = d # ds"
        by (auto split: list.splits)
      have lds: "length ds < length cs" by (rule skip_ws_Cons_length [OF inner])
      show ?thesis
      proof (cases "d = CHR ''}''")
        case True
        with h Cons obj inner have r: "r = ds" "v = JObj []" by auto
        obtain k where k: "length s - length r = Suc k"
          using lcs lds r by (cases "length s - length r") auto
        show ?thesis
          unfolding k parse_value.simps(2) [of k]
          using lcs lds r Cons obj inner True
          by (simp del: parse_value.simps parse_elements.simps parse_members.simps)
      next
        case False
        with h Cons obj inner obtain fs' where
          m: "parse_members n cs = Some (fs', r)" and v: "v = JObj fs'"
          by (auto split: option.splits)
        from IHm [OF m] have lr: "length r < length cs"
          and m': "parse_members (length cs - length r) cs = Some (fs', r)" by simp_all
        obtain k where k: "length s - length r = Suc k" "length cs - length r \<le> k"
          using lcs lr by (cases "length s - length r") auto
        have "parse_members k cs = Some (fs', r)"
          by (rule parse_members_fuel_mono [OF m' k(2)])
        then show ?thesis
          unfolding k parse_value.simps(2) [of k]
          using lcs lr Cons obj inner False v
          by (simp del: parse_value.simps parse_elements.simps parse_members.simps)
      qed
    next
      case arr
      from h Cons arr obtain d ds where inner: "skip_ws cs = d # ds"
        by (auto split: list.splits)
      have lds: "length ds < length cs" by (rule skip_ws_Cons_length [OF inner])
      show ?thesis
      proof (cases "d = CHR '']''")
        case True
        with h Cons arr inner have r: "r = ds" "v = JArr []" by auto
        obtain k where k: "length s - length r = Suc k"
          using lcs lds r by (cases "length s - length r") auto
        show ?thesis
          unfolding k parse_value.simps(2) [of k]
          using lcs lds r Cons arr inner True
          by (simp del: parse_value.simps parse_elements.simps parse_members.simps)
      next
        case False
        with h Cons arr inner obtain vs' where
          m: "parse_elements n cs = Some (vs', r)" and v: "v = JArr vs'"
          by (auto split: option.splits)
        from IHe [OF m] have lr: "length r < length cs"
          and m': "parse_elements (length cs - length r) cs = Some (vs', r)" by simp_all
        obtain k where k: "length s - length r = Suc k" "length cs - length r \<le> k"
          using lcs lr by (cases "length s - length r") auto
        have "parse_elements k cs = Some (vs', r)"
          by (rule parse_elements_fuel_mono [OF m' k(2)])
        then show ?thesis
          unfolding k parse_value.simps(2) [of k]
          using lcs lr Cons arr inner False v
          by (simp del: parse_value.simps parse_elements.simps parse_members.simps)
      qed
    next
      case other
      have lr: "length r < length s"
        by (rule parse_value_leaf_length [OF Cons other h])
      then obtain k where k: "length s - length r = Suc k"
        by (cases "length s - length r") auto
      have "parse_value (Suc k) s = parse_value (Suc n) s"
        using parse_value_leaf [OF Cons other, of k] parse_value_leaf [OF Cons other, of n]
        by simp
      with h lr k show ?thesis by simp
    qed
  qed
  have els: "length r < length s \<and> parse_elements (length s - length r) s = Some (vs, r)"
    if h: "parse_elements (Suc n) s = Some (vs, r)"
  proof -
    from h obtain a r1 c cs where f: "parse_value n s = Some (a, r1)" "skip_ws r1 = c # cs"
      by (auto split: option.splits list.splits)
    from IHv [OF f(1)] have l1: "length r1 < length s"
      and v': "parse_value (length s - length r1) s = Some (a, r1)" by simp_all
    have lcs: "length cs < length r1" by (rule skip_ws_Cons_length [OF f(2)])
    show ?thesis
    proof (cases "c = CHR '']''")
      case True
      with h f have r: "r = cs" "vs = [a]" by auto
      obtain k where k: "length s - length r = Suc k" "length s - length r1 \<le> k"
        using l1 lcs r by (cases "length s - length r") auto
      have "parse_value k s = Some (a, r1)" by (rule parse_value_fuel_mono [OF v' k(2)])
      then show ?thesis
        unfolding k parse_elements.simps(2) [of k]
        using l1 lcs r f True
        by (simp del: parse_value.simps parse_elements.simps parse_members.simps)
    next
      case False
      with h f obtain vs' where c: "c = CHR '',''"
        and e: "parse_elements n cs = Some (vs', r)" and vs: "vs = a # vs'"
        by (auto split: option.splits if_splits)
      from IHe [OF e] have lr: "length r < length cs"
        and e': "parse_elements (length cs - length r) cs = Some (vs', r)" by simp_all
      obtain k where k: "length s - length r = Suc k" "length s - length r1 \<le> k"
        "length cs - length r \<le> k"
        using l1 lcs lr by (cases "length s - length r") auto
      have "parse_value k s = Some (a, r1)" by (rule parse_value_fuel_mono [OF v' k(2)])
      moreover have "parse_elements k cs = Some (vs', r)"
        by (rule parse_elements_fuel_mono [OF e' k(3)])
      ultimately show ?thesis
        unfolding k parse_elements.simps(2) [of k]
        using l1 lcs lr f False c vs
        by (simp del: parse_value.simps parse_elements.simps parse_members.simps)
    qed
  qed
  have mem: "length r < length s \<and> parse_members (length s - length r) s = Some (fs, r)"
    if h: "parse_members (Suc n) s = Some (fs, r)"
  proof -
    from h obtain ks key r0 cs a r1 e es where f:
      "skip_ws s = quote # ks" "parse_chars ks = Some (key, r0)" "skip_ws r0 = CHR '':'' # cs"
      "parse_value n cs = Some (a, r1)" "skip_ws r1 = e # es"
      by (auto split: list.splits option.splits if_splits)
    have l0: "length ks < length s" by (rule skip_ws_Cons_length [OF f(1)])
    have l1: "length r0 < length ks" by (rule parse_chars_length [OF f(2)])
    have l2: "length cs < length r0" by (rule skip_ws_Cons_length [OF f(3)])
    from IHv [OF f(4)] have l3: "length r1 < length cs"
      and v': "parse_value (length cs - length r1) cs = Some (a, r1)" by simp_all
    have l4: "length es < length r1" by (rule skip_ws_Cons_length [OF f(5)])
    show ?thesis
    proof (cases "e = CHR ''}''")
      case True
      with h f have r: "r = es" "fs = [(key, a)]" by auto
      obtain k where k: "length s - length r = Suc k" "length cs - length r1 \<le> k"
        using l0 l1 l2 l3 l4 r by (cases "length s - length r") auto
      have "parse_value k cs = Some (a, r1)" by (rule parse_value_fuel_mono [OF v' k(2)])
      then show ?thesis
        unfolding k parse_members.simps(2) [of k]
        using l0 l1 l2 l3 l4 r f True
        by (simp del: parse_value.simps parse_elements.simps parse_members.simps)
    next
      case False
      with h f obtain fs' where c: "e = CHR '',''"
        and m: "parse_members n es = Some (fs', r)" and fs: "fs = (key, a) # fs'"
        by (auto split: option.splits if_splits)
      from IHm [OF m] have lr: "length r < length es"
        and m': "parse_members (length es - length r) es = Some (fs', r)" by simp_all
      obtain k where k: "length s - length r = Suc k" "length cs - length r1 \<le> k"
        "length es - length r \<le> k"
        using l0 l1 l2 l3 l4 lr by (cases "length s - length r") auto
      have "parse_value k cs = Some (a, r1)" by (rule parse_value_fuel_mono [OF v' k(2)])
      moreover have "parse_members k es = Some (fs', r)"
        by (rule parse_members_fuel_mono [OF m' k(3)])
      ultimately show ?thesis
        unfolding k parse_members.simps(2) [of k]
        using l0 l1 l2 l3 l4 lr f False c fs
        by (simp del: parse_value.simps parse_elements.simps parse_members.simps)
    qed
  qed
  from val els mem show ?case by blast
qed

lemma JSON_parse_fuel_enough:
  assumes "parse_value n s = Some (v, r)" and "skip_ws r = []"
  shows "JSON_parse s = Some v"
proof -
  from parse_fuel_consumed [of n s v r] assms(1)
  have "parse_value (length s - length r) s = Some (v, r)" by blast
  then have "parse_value (Suc (length s)) s = Some (v, r)"
    by (rule parse_value_fuel_mono) simp
  with assms(2) show ?thesis by (simp add: JSON_parse_def del: parse_value.simps)
qed

section \<open>Helper facts\<close>

lemmas storage_defs = getItem_def setItem_def removeItem_def call_def reload_def

lemmas scenario_defs = seller_def listings_ok_def listings_expired_def network_error_def
  unauthorized_def refresh_failed_def token_reply_of_def connected_def initial_def

lemmas text_defs = token_record_def JSON_stringify_def quote_string_def escape_char_def
  quote_def backslash_def is_control_def show_int_def show_nat.simps digit_char_def

lemma token_record_nonempty: "token_record (JStr v) (JNum e) \<noteq> []"
  by (simp add: token_record_text)

lemma local_token_record:
  "local_token now (Some (token_record (JStr v) (JNum e)))
     = (if now < e \<and> v \<noteq> [] then Some (JStr v) else None)"
  by (simp add: local_token_def token_record_nonempty JSON_parse_token_record)

lemma local_token_malformed: "JSON_parse raw = None \<Longrightarrow> local_token now (Some raw) = None"
  by (simp add: local_token_def)

lemma getValidAuthToken_resolves:
  "\<exists>v. fst (getValidAuthToken userId now remote now' st) = Resolved v"
  by (simp add: getValidAuthToken_def Let_def split: option.split promise.split prod.split)

lemma listings_calls_append: "listings_calls (xs @ ys) = listings_calls xs @ listings_calls ys"
  by (induction xs rule: listings_calls.induct) simp_all

lemma token_record_abc:
  \<open>token_record (JStr ''abc'') (JNum 1001000) = ''{"value":"abc","expiry":1001000}''\<close>
  by (simp add: text_defs)

lemma token_record_expired:
  \<open>token_record (JStr ''abc'') (JNum 999) = ''{"value":"abc","expiry":999}''\<close>
  by (simp add: text_defs)

lemma token_record_fresh:
  \<open>token_record (JStr ''abc'') (JNum 1001) = ''{"value":"abc","expiry":1001}''\<close>
  by (simp add: text_defs)

lemma JSON_parse_abc: "JSON_parse ''abc'' = None"
  by (simp add: JSON_parse_def quote_def is_ws_def parse_number_def parse_nat_def digit_of_def)

lemma fetchListings_refresh_failed:
  assumes "\<not> success_l resp" "first_errorId resp = Some 932" "refreshed_ok refreshed = None"
  shows "fetchListings (Some u) (Resolved resp) (Resolved refreshed) now st
         = (clear_tokens
              (call (RefreshEbayUserToken (uid u))
                 (call (GetActiveListings (ebayToken st))
                    (st\<lparr>loadingListings := True, listingsError := None\<rparr>))))
             \<lparr>loadingListings := False\<rparr>"
  using assms by (simp add: fetchListings_def fetchListings_try_def Let_def)

lemma fetchListings_unauthorized:
  assumes "response_status err = Some 401 \<or> status err = Some 401"
  shows "fetchListings usr (Rejected err) refresh now st
         = (clear_tokens
              (call (GetActiveListings (ebayToken st))
                 (st\<lparr>loadingListings := True, listingsError := None\<rparr>)))
             \<lparr>listingsError := None, loadingListings := False\<rparr>"
  using assms by (simp add: fetchListings_def fetchListings_try_def fetchListings_catch_def Let_def)

lemma fetchListings_refreshed:
  assumes "\<not> success_l resp" "first_errorId resp = Some 932" "refreshed_ok refreshed = Some (tok, d)"
  shows "fetchListings (Some u) (Resolved resp) (Resolved refreshed) now st
         = (setItem ''ebay_user_token''
              (token_record (JStr tok) (JNum (now + or_7200 (expires_in d) * 1000)))
              (call (RefreshEbayUserToken (uid u))
                 (call (GetActiveListings (ebayToken st))
                    (st\<lparr>loadingListings := True, listingsError := None\<rparr>))))
             \<lparr>ebayToken := JStr tok, loadingListings := False\<rparr>"
  using assms by (simp add: fetchListings_def fetchListings_try_def Let_def)

lemma fetchListings_ok:
  assumes "success_l resp"
  shows "fetchListings usr (Resolved resp) refresh now st
         = (call (GetActiveListings (ebayToken st))
              (st\<lparr>loadingListings := True, listingsError := None\<rparr>))
             \<lparr>loadingListings := False\<rparr>"
  using assms by (simp add: fetchListings_def fetchListings_try_def Let_def)

lemma refreshed_ok_token: "refreshed_ok refreshed = Some (tok, d) \<Longrightarrow> tok \<noteq> []"
  by (auto simp add: refreshed_ok_def split: option.splits if_splits)

lemma run_listings_effect_quiescent:
  "prev = Some (ebayToken st) \<Longrightarrow> run_listings_effect usr envs prev st = Some st"
  by (cases envs) simp_all

lemma getValidAuthToken_page:
  "ebayToken (snd (getValidAuthToken userId now remote now' st)) = ebayToken st
   \<and> needsConnection (snd (getValidAuthToken userId now remote now' st)) = needsConnection st"
  by (simp add: getValidAuthToken_def storage_defs Let_def
      split: option.split promise.split prod.split)

lemma token_record_new_7201000:
  \<open>token_record (JStr ''new'') (JNum 7201000) = ''{"value":"new","expiry":7201000}''\<close>
  by (simp add: text_defs)

lemma token_record_new_1000:
  \<open>token_record (JStr ''new'') (JNum 1000) = ''{"value":"new","expiry":1000}''\<close>
  by (simp add: text_defs)

lemma token_record_new_NaN:
  \<open>token_record (JStr ''new'') JNaN = ''{"value":"new","expiry":null}''\<close>
  by (simp add: text_defs)

lemma refreshed_ok_reply:
  "tok \<noteq> [] \<Longrightarrow> refreshed_ok (Some (token_reply_of tok seconds))
     = Some (tok, \<lparr>access_token = Some tok, refresh_token = None, expires_in = seconds,
                   expires_in_seconds = seconds\<rparr>)"
  by (simp add: refreshed_ok_def token_reply_of_def)

lemma listings_expired_facts:
  "\<not> success_l listings_expired" "first_errorId listings_expired = Some 932"
  by (simp_all add: listings_expired_def first_errorId_def)

lemma token_record_boundary:
  \<open>token_record (JStr ''abc'') (JNum 1000) = ''{"value":"abc","expiry":1000}''\<close>
  by (simp add: text_defs)

lemma getValidAuthToken_remote_trace:
  assumes "local_token now (getItem st ''ebay_user_token'') = None"
  shows "take (Suc (length (trace st))) (trace (snd (getValidAuthToken userId now remote now' st)))
         = trace st @ [Call (GetEbayUserToken userId)]"
  using assms
  by (simp add: getValidAuthToken_def storage_defs Let_def split: promise.split option.split)

section \<open>The stored record\<close>

text \<open>
  C1. Every value persisted under \<^verbatim>\<open>ebay_user_token\<close> should be a complete record
  \<^verbatim>\<open>{ value, expiry }\<close>, written whole by each flow that stores a token. The mount-time
  check does not keep to it: with the record of scenario A in storage
  (\<^verbatim>\<open>{"value":"abc","expiry":1001000}\<close> at time 1000), \<open>getValidAuthToken\<close> returns
  \<open>abc\<close> and \<open>checkToken\<close> then stores the bare token \<open>abc\<close> under the key, in place
  of the record: that write is the one effect of the run. The stored text is no longer
  JSON: the validator's \<^verbatim>\<open>JSON.parse\<close> throws on it.
\<close>

theorem checkToken_overwrites_record_with_raw_token:
  \<open>localStorage
      (checkToken (Some seller) 1000 (Rejected network_error) 1000
         (initial [''ebay_user_token'' \<mapsto> ''{"value":"abc","expiry":1001000}'']))
      ''ebay_user_token'' = Some ''abc''
    \<and> trace
        (checkToken (Some seller) 1000 (Rejected network_error) 1000
           (initial [''ebay_user_token'' \<mapsto> ''{"value":"abc","expiry":1001000}'']))
      = [SetItem ''ebay_user_token'' ''abc'']
    \<and> JSON_parse ''abc'' = None\<close>
proof -
  have \<open>local_token 1000 (Some ''{"value":"abc","expiry":1001000}'') = Some (JStr ''abc'')\<close>
    unfolding token_record_abc [symmetric] by (simp add: local_token_record)
  then show ?thesis
    by (simp add: checkToken_def checkToken_local_def getValidAuthToken_def storage_defs
        scenario_defs JSON_parse_abc)
qed

section \<open>The mount-time check\<close>

text \<open>
  C10, as the code has it. For a logged-in user (a non-empty \<^verbatim>\<open>user.id\<close>) and a
  non-empty string stored under \<^verbatim>\<open>ebay_user_token\<close>, whatever it is, the first step
  of \<open>checkToken\<close> sets \<open>ebayToken\<close> to that raw string and \<open>needsConnection\<close> to
  false; and when the validation that follows yields no token, \<open>needsConnection\<close> is
  still false and \<open>ebayToken\<close> is still the raw string when \<open>checkToken\<close> is done.
\<close>

theorem local_value_suppresses_connect_prompt:
  assumes "usr = Some u" and "uid u \<noteq> []"
    and "localStorage st ''ebay_user_token'' = Some raw" and "raw \<noteq> []"
  shows "checkToken_local (getItem st ''ebay_user_token'') st
           = st\<lparr>ebayToken := JStr raw, needsConnection := False\<rparr>
       \<and> (no_token (fst (getValidAuthToken (uid u) now remote now'
                            (checkToken_local (getItem st ''ebay_user_token'') st)))
          \<longrightarrow> \<not> needsConnection (checkToken usr now remote now' st)
            \<and> ebayToken (checkToken usr now remote now' st) = JStr raw)"
proof -
  let ?st1 = "checkToken_local (getItem st ''ebay_user_token'') st"
  have l: "?st1 = st\<lparr>ebayToken := JStr raw, needsConnection := False\<rparr>"
    using assms(3,4) by (simp add: checkToken_local_def getItem_def)
  obtain p st2 where g: "getValidAuthToken (uid u) now remote now' ?st1 = (p, st2)"
    by (cases "getValidAuthToken (uid u) now remote now' ?st1") blast
  have page: "ebayToken st2 = JStr raw" "\<not> needsConnection st2"
    using getValidAuthToken_page [of "uid u" now remote now' ?st1] g l by simp_all
  have "\<not> needsConnection (checkToken usr now remote now' st)
        \<and> ebayToken (checkToken usr now remote now' st) = JStr raw" if "no_token p"
    using that assms g page
    by (cases p) (simp_all add: checkToken_def no_token_def getItem_def Let_def)
  with l g show ?thesis by simp
qed

theorem local_value_suppresses_connect_prompt_witness:
  "Some seller = Some seller \<and> uid seller \<noteq> []
   \<and> localStorage (initial [''ebay_user_token'' \<mapsto> ''stale-token'']) ''ebay_user_token''
       = Some ''stale-token''
   \<and> ''stale-token'' \<noteq> []
   \<and> checkToken_local (getItem (initial [''ebay_user_token'' \<mapsto> ''stale-token'']) ''ebay_user_token'')
        (initial [''ebay_user_token'' \<mapsto> ''stale-token''])
      = (initial [''ebay_user_token'' \<mapsto> ''stale-token''])
          \<lparr>ebayToken := JStr ''stale-token'', needsConnection := False\<rparr>
   \<and> no_token (fst (getValidAuthToken (uid seller) 1000 (Rejected network_error) 1000
         (checkToken_local (getItem (initial [''ebay_user_token'' \<mapsto> ''stale-token'']) ''ebay_user_token'')
            (initial [''ebay_user_token'' \<mapsto> ''stale-token'']))))
   \<and> \<not> needsConnection (checkToken (Some seller) 1000 (Rejected network_error) 1000
         (initial [''ebay_user_token'' \<mapsto> ''stale-token'']))
   \<and> ebayToken (checkToken (Some seller) 1000 (Rejected network_error) 1000
         (initial [''ebay_user_token'' \<mapsto> ''stale-token''])) = JStr ''stale-token''"
proof -
  have h1: "Some seller = Some seller" by simp
  have h2: "uid seller \<noteq> []" by (simp add: seller_def)
  have h3: "localStorage (initial [''ebay_user_token'' \<mapsto> ''stale-token'']) ''ebay_user_token''
       = Some ''stale-token''"
    by (simp add: initial_def)
  have h4: "''stale-token'' \<noteq> []" by simp
  have p: "JSON_parse ''stale-token'' = None"
    by (simp add: JSON_parse_def quote_def is_ws_def parse_number_def parse_nat_def digit_of_def)
  have n: "no_token (fst (getValidAuthToken (uid seller) 1000 (Rejected network_error) 1000
         (checkToken_local (getItem (initial [''ebay_user_token'' \<mapsto> ''stale-token'']) ''ebay_user_token'')
            (initial [''ebay_user_token'' \<mapsto> ''stale-token'']))))"
    by (simp add: no_token_def getValidAuthToken_def checkToken_local_def getItem_def
        initial_def local_token_malformed [OF p] Let_def)
  from local_value_suppresses_connect_prompt [OF h1 h2 h3 h4, where now = 1000
      and remote = "Rejected network_error" and now' = 1000] n h1 h2 h3 h4
  show ?thesis by blast
qed

text \<open>
  C10 as stated speaks of any stored string. The empty string is stored text too, and
  falsy: with it in storage and the validation failing, \<open>checkToken\<close> leaves
  \<open>ebayToken\<close> at \<^verbatim>\<open>null\<close> and shows the connect prompt. And without a user
  \<open>checkToken\<close> returns at once, whatever is stored.
\<close>

theorem empty_value_counterexample:
  "needsConnection (checkToken (Some seller) 1000 (Rejected network_error) 1000
       (initial [''ebay_user_token'' \<mapsto> '''']))
   \<and> ebayToken (checkToken (Some seller) 1000 (Rejected network_error) 1000
       (initial [''ebay_user_token'' \<mapsto> ''''])) = JNull
   \<and> ebayToken (checkToken None 1000 (Rejected network_error) 1000
       (initial [''ebay_user_token'' \<mapsto> ''abc''])) = JNull"
  by (simp add: checkToken_def checkToken_local_def getValidAuthToken_def local_token_def
      storage_defs scenario_defs Let_def)

section \<open>The token validator\<close>

text \<open>
  C6. With a record \<^verbatim>\<open>{ value: v, expiry: e }\<close> in storage, \<open>v\<close> non-empty, and the
  current time before \<open>e\<close>, \<open>getValidAuthToken\<close> returns \<open>v\<close> and leaves the state as
  it was, trace included: no network call is made. A second call under the same record,
  still unexpired, does the same.
\<close>

theorem valid_record_returned_locally:
  assumes "localStorage st ''ebay_user_token'' = Some (token_record (JStr v) (JNum e))"
    and "v \<noteq> []" and "now1 < e" and "now2 < e"
  shows "getValidAuthToken userId now1 remote1 t1 st = (Resolved (JStr v), st)
       \<and> getValidAuthToken userId now2 remote2 t2 (snd (getValidAuthToken userId now1 remote1 t1 st))
           = (Resolved (JStr v), st)"
proof -
  have "getValidAuthToken userId now r t st = (Resolved (JStr v), st)" if "now < e" for now r t
    using assms(1,2) that by (simp add: getValidAuthToken_def getItem_def local_token_record)
  then show ?thesis using assms(3,4) by simp
qed

theorem valid_record_returned_locally_witness:
  \<open>localStorage (initial [''ebay_user_token'' \<mapsto> ''{"value":"abc","expiry":1001000}''])
       ''ebay_user_token'' = Some (token_record (JStr ''abc'') (JNum 1001000))
    \<and> ''abc'' \<noteq> [] \<and> (1000::int) < 1001000 \<and> (1001::int) < 1001000
    \<and> getValidAuthToken ''u1'' 1000 (Rejected network_error) 1000
         (initial [''ebay_user_token'' \<mapsto> ''{"value":"abc","expiry":1001000}''])
       = (Resolved (JStr ''abc''),
          initial [''ebay_user_token'' \<mapsto> ''{"value":"abc","expiry":1001000}''])
    \<and> getValidAuthToken ''u1'' 1001 (Rejected network_error) 1001
         (snd (getValidAuthToken ''u1'' 1000 (Rejected network_error) 1000
            (initial [''ebay_user_token'' \<mapsto> ''{"value":"abc","expiry":1001000}''])))
       = (Resolved (JStr ''abc''),
          initial [''ebay_user_token'' \<mapsto> ''{"value":"abc","expiry":1001000}''])\<close>
proof -
  have h1: \<open>localStorage (initial [''ebay_user_token'' \<mapsto> ''{"value":"abc","expiry":1001000}''])
       ''ebay_user_token'' = Some (token_record (JStr ''abc'') (JNum 1001000))\<close>
    by (simp add: initial_def token_record_abc)
  have h2: "''abc'' \<noteq> []" by simp
  have h3: "(1000::int) < 1001000" by simp
  have h4: "(1001::int) < 1001000" by simp
  from valid_record_returned_locally [OF h1 h2 h3 h4] h1 h2 h3 h4
  show ?thesis by blast
qed

text \<open>
  C7. The comparison with the expiry is strict: with a record \<^verbatim>\<open>{ value: v, expiry: e }\<close>
  in storage, \<open>v\<close> non-empty, the validator returns \<open>v\<close> and does nothing else exactly
  when \<open>now < e\<close>, and in every other case the next thing it does is the call to the
  backend. So a record whose expiry is \<open>now - 1\<close> is not used, a record whose expiry
  is \<open>now\<close> itself is not used either, and a record whose expiry is \<open>now + 1\<close> is.
\<close>

theorem expiry_check_is_strict:
  assumes "v \<noteq> []"
    and "localStorage st ''ebay_user_token'' = Some (token_record (JStr v) (JNum e))"
  shows "((getValidAuthToken userId now remote now' st = (Resolved (JStr v), st)) = (now < e))
       \<and> ((take (Suc (length (trace st)))
              (trace (snd (getValidAuthToken userId now remote now' st)))
             = trace st @ [Call (GetEbayUserToken userId)]) = (\<not> now < e))
       \<and> (e = now - 1
            \<longrightarrow> take (Suc (length (trace st)))
                   (trace (snd (getValidAuthToken userId now remote now' st)))
                  = trace st @ [Call (GetEbayUserToken userId)])
       \<and> (e = now
            \<longrightarrow> take (Suc (length (trace st)))
                   (trace (snd (getValidAuthToken userId now remote now' st)))
                  = trace st @ [Call (GetEbayUserToken userId)])
       \<and> (e = now + 1
            \<longrightarrow> getValidAuthToken userId now remote now' st = (Resolved (JStr v), st))"
proof -
  have l: "local_token now (getItem st ''ebay_user_token'')
           = (if now < e then Some (JStr v) else None)"
    using assms by (simp add: getItem_def local_token_record)
  have valid: "getValidAuthToken userId now remote now' st = (Resolved (JStr v), st)"
    if "now < e"
    using that l by (simp add: getValidAuthToken_def)
  have expired: "take (Suc (length (trace st)))
                   (trace (snd (getValidAuthToken userId now remote now' st)))
                 = trace st @ [Call (GetEbayUserToken userId)]"
    if "\<not> now < e"
    using that l by (simp add: getValidAuthToken_remote_trace)
  have a: "(getValidAuthToken userId now remote now' st = (Resolved (JStr v), st)) = (now < e)"
  proof
    assume r: "getValidAuthToken userId now remote now' st = (Resolved (JStr v), st)"
    show "now < e"
    proof (rule ccontr)
      assume "\<not> now < e"
      from expired [OF this] r show False by simp
    qed
  qed (rule valid)
  have b: "(take (Suc (length (trace st)))
              (trace (snd (getValidAuthToken userId now remote now' st)))
             = trace st @ [Call (GetEbayUserToken userId)]) = (\<not> now < e)"
  proof
    assume t: "take (Suc (length (trace st)))
              (trace (snd (getValidAuthToken userId now remote now' st)))
             = trace st @ [Call (GetEbayUserToken userId)]"
    show "\<not> now < e"
    proof
      assume "now < e"
      from valid [OF this] t show False by simp
    qed
  qed (rule expired)
  from a b valid expired show ?thesis by auto
qed

theorem expiry_check_is_strict_witness:
  \<open>''abc'' \<noteq> []
    \<and> localStorage (initial [''ebay_user_token'' \<mapsto> ''{"value":"abc","expiry":999}''])
        ''ebay_user_token'' = Some (token_record (JStr ''abc'') (JNum 999))
    \<and> (999::int) = 1000 - 1
    \<and> \<not> (1000::int) < 999
    \<and> take (Suc (length (trace (initial [''ebay_user_token'' \<mapsto> ''{"value":"abc","expiry":999}'']))))
        (trace (snd (getValidAuthToken ''u1'' 1000 (Rejected network_error) 1000
           (initial [''ebay_user_token'' \<mapsto> ''{"value":"abc","expiry":999}'']))))
      = trace (initial [''ebay_user_token'' \<mapsto> ''{"value":"abc","expiry":999}''])
          @ [Call (GetEbayUserToken ''u1'')]
    \<and> localStorage (initial [''ebay_user_token'' \<mapsto> ''{"value":"abc","expiry":1000}''])
        ''ebay_user_token'' = Some (token_record (JStr ''abc'') (JNum 1000))
    \<and> (1000::int) = 1000
    \<and> take (Suc (length (trace (initial [''ebay_user_token'' \<mapsto> ''{"value":"abc","expiry":1000}'']))))
        (trace (snd (getValidAuthToken ''u1'' 1000 (Rejected network_error) 1000
           (initial [''ebay_user_token'' \<mapsto> ''{"value":"abc","expiry":1000}'']))))
      = trace (initial [''ebay_user_token'' \<mapsto> ''{"value":"abc","expiry":1000}''])
          @ [Call (GetEbayUserToken ''u1'')]
    \<and> getValidAuthToken ''u1'' 1000 (Rejected network_error) 1000
        (initial [''ebay_user_token'' \<mapsto> ''{"value":"abc","expiry":1000}''])
      \<noteq> (Resolved (JStr ''abc''),
         initial [''ebay_user_token'' \<mapsto> ''{"value":"abc","expiry":1000}''])
    \<and> localStorage (initial [''ebay_user_token'' \<mapsto> ''{"value":"abc","expiry":1001}''])
        ''ebay_user_token'' = Some (token_record (JStr ''abc'') (JNum 1001))
    \<and> (1001::int) = 1000 + 1
    \<and> (1000::int) < 1001
    \<and> getValidAuthToken ''u1'' 1000 (Rejected network_error) 1000
        (initial [''ebay_user_token'' \<mapsto> ''{"value":"abc","expiry":1001}''])
      = (Resolved (JStr ''abc''),
         initial [''ebay_user_token'' \<mapsto> ''{"value":"abc","expiry":1001}''])\<close>
proof -
  have h: "''abc'' \<noteq> []" by simp
  have s1: \<open>localStorage (initial [''ebay_user_token'' \<mapsto> ''{"value":"abc","expiry":999}''])
        ''ebay_user_token'' = Some (token_record (JStr ''abc'') (JNum 999))\<close>
    by (simp add: initial_def token_record_expired)
  have s2: \<open>localStorage (initial [''ebay_user_token'' \<mapsto> ''{"value":"abc","expiry":1000}''])
        ''ebay_user_token'' = Some (token_record (JStr ''abc'') (JNum 1000))\<close>
    by (simp add: initial_def token_record_boundary)
  have s3: \<open>localStorage (initial [''ebay_user_token'' \<mapsto> ''{"value":"abc","expiry":1001}''])
        ''ebay_user_token'' = Some (token_record (JStr ''abc'') (JNum 1001))\<close>
    by (simp add: initial_def token_record_fresh)
  have n: "(999::int) = 1000 - 1" "\<not> (1000::int) < 999" "(1000::int) = 1000"
    "(1001::int) = 1000 + 1" "(1000::int) < 1001" "\<not> (1000::int) < 1000"
    by simp_all
  note t1 = expiry_check_is_strict [OF h s1, where now = 1000 and userId = "''u1''"
      and remote = "Rejected network_error" and now' = 1000]
  note t2 = expiry_check_is_strict [OF h s2, where now = 1000 and userId = "''u1''"
      and remote = "Rejected network_error" and now' = 1000]
  note t3 = expiry_check_is_strict [OF h s3, where now = 1000 and userId = "''u1''"
      and remote = "Rejected network_error" and now' = 1000]
  from t1 t2 t3 h s1 s2 s3 n show ?thesis by blast
qed

text \<open>
  C8. When the local step yields nothing (no stored text, a text that is not JSON, a
  record that is expired or incomplete) and the backend call fails, by rejecting or by
  a reply that does not pass the test of step 3, \<open>getValidAuthToken\<close> resolves to
  \<^verbatim>\<open>null\<close>; the only effect is the call itself. The promise it returns is resolved,
  not rejected.
\<close>

theorem validator_failure_is_null:
  assumes "local_token now (getItem st ''ebay_user_token'') = None"
    and "case remote of Rejected err \<Rightarrow> True | Resolved resp \<Rightarrow> token_reply resp = None"
  shows "getValidAuthToken userId now remote now' st
         = (Resolved JNull, call (GetEbayUserToken userId) st)"
  using assms by (simp add: getValidAuthToken_def Let_def split: promise.splits)

theorem validator_failure_is_null_witness:
  \<open>local_token 1000
      (getItem (initial [''ebay_user_token'' \<mapsto> ''{"value":"abc"'']) ''ebay_user_token'') = None
    \<and> (case Rejected network_error of
          Rejected err \<Rightarrow> True
        | Resolved resp \<Rightarrow> token_reply resp = None)
    \<and> getValidAuthToken ''u1'' 1000 (Rejected network_error) 1000
         (initial [''ebay_user_token'' \<mapsto> ''{"value":"abc"''])
       = (Resolved JNull,
          call (GetEbayUserToken ''u1'') (initial [''ebay_user_token'' \<mapsto> ''{"value":"abc"'']))\<close>
proof -
  have p: \<open>JSON_parse ''{"value":"abc"'' = None\<close>
    by (simp add: JSON_parse_def quote_def backslash_def is_control_def is_ws_def cons_char_def)
  have h1: \<open>local_token 1000
      (getItem (initial [''ebay_user_token'' \<mapsto> ''{"value":"abc"'']) ''ebay_user_token'') = None\<close>
    by (simp add: getItem_def initial_def local_token_malformed [OF p])
  have h2: \<open>case Rejected network_error of
          Rejected err \<Rightarrow> True
        | Resolved resp \<Rightarrow> token_reply resp = None\<close>
    by simp
  from validator_failure_is_null [OF h1 h2] h1 h2 show ?thesis by blast
qed

section \<open>The message handler and the global signals\<close>

text \<open>
  C5. A message whose origin is not the page's own origin changes nothing: the handler
  returns with the state it found (storage, \<open>ebayToken\<close>, \<open>needsConnection\<close> and the
  trace of effects), and no error escapes.
\<close>

theorem foreign_origin_is_ignored:
  assumes "origin event \<noteq> window_origin"
  shows "handleMessage window_origin usr event exchange now st = (None, st)"
  using assms by (simp add: handleMessage_def)

theorem foreign_origin_is_ignored_witness:
  \<open>origin \<lparr>origin = ''https://evil.example'',
            data_e = Some \<lparr>code = Some ''c1'', state = None, expires_in_m = None\<rparr>\<rparr>
      \<noteq> ''https://app.example''
    \<and> handleMessage ''https://app.example'' (Some seller)
        \<lparr>origin = ''https://evil.example'',
         data_e = Some \<lparr>code = Some ''c1'', state = None, expires_in_m = None\<rparr>\<rparr>
        (Resolved (token_reply_of ''xyz'' (Some 3600))) 1000 connected
      = (None, connected)\<close>
proof -
  have h: \<open>origin \<lparr>origin = ''https://evil.example'',
            data_e = Some \<lparr>code = Some ''c1'', state = None, expires_in_m = None\<rparr>\<rparr>
      \<noteq> ''https://app.example''\<close>
    by simp
  show ?thesis by (rule conjI [OF h foreign_origin_is_ignored [OF h]])
qed

text \<open>
  C9. On \<^verbatim>\<open>authenticationFailed\<close> the handler removes the five keys \<^verbatim>\<open>user-store\<close>,
  \<^verbatim>\<open>ebay_user_token\<close>, \<^verbatim>\<open>ebay_refresh_token\<close>, \<^verbatim>\<open>userId\<close> and \<^verbatim>\<open>user_id\<close>, and
  then reloads: none of the keys is left in storage, and in the trace the five removals
  come before the reload.
\<close>

theorem auth_failure_clears_five_keys:
  "localStorage (handleAuthFailure st) ''user-store'' = None
   \<and> localStorage (handleAuthFailure st) ''ebay_user_token'' = None
   \<and> localStorage (handleAuthFailure st) ''ebay_refresh_token'' = None
   \<and> localStorage (handleAuthFailure st) ''userId'' = None
   \<and> localStorage (handleAuthFailure st) ''user_id'' = None
   \<and> trace (handleAuthFailure st)
       = trace st @ [RemoveItem ''user-store'', RemoveItem ''ebay_user_token'',
                     RemoveItem ''ebay_refresh_token'', RemoveItem ''userId'',
                     RemoveItem ''user_id'', Reload]"
  by (simp add: handleAuthFailure_def storage_defs)

section \<open>The listings fetch\<close>

text \<open>
  C2, as the code has it. A listings fetch is answered with \<^verbatim>\<open>success: false\<close> and
  error 932, and the refresh call resolves with \<^verbatim>\<open>success\<close> and a non-empty access
  token \<open>tok\<close>. Then the record \<^verbatim>\<open>{ value: tok, expiry: now + (expires_in || 7200) *
  1000 }\<close> is stored, \<open>ebayToken\<close> is \<open>tok\<close>, and this run of \<open>fetchListings\<close> has
  made one listings call, with the old token: it does not call itself. The retry is the
  effect's: when \<open>tok\<close> differs from the token the page held, the effect runs again,
  and with the second fetch succeeding the page is quiescent after exactly two listings
  calls, the second with \<open>tok\<close>.
\<close>

theorem refresh_then_retry:
  assumes "usr = Some u"
    and "\<not> success_l resp" and "first_errorId resp = Some 932"
    and "refreshed_ok refreshed = Some (tok, d)"
    and "st' = fetchListings usr (Resolved resp) (Resolved refreshed) now st"
  shows "localStorage st' ''ebay_user_token''
           = Some (token_record (JStr tok) (JNum (now + or_7200 (expires_in d) * 1000)))
       \<and> ebayToken st' = JStr tok
       \<and> listings_calls (trace st') = listings_calls (trace st) @ [ebayToken st]
       \<and> (truthy (ebayToken st) \<and> ebayToken st \<noteq> JStr tok \<and> prev \<noteq> Some (ebayToken st)
            \<and> success_l again
          \<longrightarrow> run_listings_effect usr
                 (\<lparr>listings_reply = Resolved resp, refresh_reply = Resolved refreshed, clock = now\<rparr>
                  # \<lparr>listings_reply = Resolved again, refresh_reply = refresh2, clock = now2\<rparr>
                  # envs) prev st
               = Some (fetchListings usr (Resolved again) refresh2 now2 st')
             \<and> listings_calls (trace (fetchListings usr (Resolved again) refresh2 now2 st'))
               = listings_calls (trace st) @ [ebayToken st, JStr tok])"
proof -
  note first = fetchListings_refreshed [OF assms(2,3,4), of u now st]
  have st': "st' = (setItem ''ebay_user_token''
              (token_record (JStr tok) (JNum (now + or_7200 (expires_in d) * 1000)))
              (call (RefreshEbayUserToken (uid u))
                 (call (GetActiveListings (ebayToken st))
                    (st\<lparr>loadingListings := True, listingsError := None\<rparr>))))
             \<lparr>ebayToken := JStr tok, loadingListings := False\<rparr>"
    using assms(1,5) first by simp
  have a: "localStorage st' ''ebay_user_token''
           = Some (token_record (JStr tok) (JNum (now + or_7200 (expires_in d) * 1000)))"
    and b: "ebayToken st' = JStr tok"
    and c: "listings_calls (trace st') = listings_calls (trace st) @ [ebayToken st]"
    by (simp_all add: st' storage_defs listings_calls_append)
  have d: "run_listings_effect usr
                 (\<lparr>listings_reply = Resolved resp, refresh_reply = Resolved refreshed, clock = now\<rparr>
                  # \<lparr>listings_reply = Resolved again, refresh_reply = refresh2, clock = now2\<rparr>
                  # envs) prev st
               = Some (fetchListings usr (Resolved again) refresh2 now2 st')
             \<and> listings_calls (trace (fetchListings usr (Resolved again) refresh2 now2 st'))
               = listings_calls (trace st) @ [ebayToken st, JStr tok]"
    if h: "truthy (ebayToken st)" "ebayToken st \<noteq> JStr tok" "prev \<noteq> Some (ebayToken st)"
      "success_l again"
  proof -
    let ?st2 = "fetchListings usr (Resolved again) refresh2 now2 st'"
    have st2: "?st2 = (call (GetActiveListings (ebayToken st'))
              (st'\<lparr>loadingListings := True, listingsError := None\<rparr>))
             \<lparr>loadingListings := False\<rparr>"
      by (rule fetchListings_ok [OF h(4)])
    have tok2: "ebayToken ?st2 = JStr tok"
      by (simp add: st2 b storage_defs)
    have e1: "listings_effect usr (Resolved resp) (Resolved refreshed) now st = st'"
      using h(1) assms(5) by (simp add: listings_effect_def)
    have e2: "listings_effect usr (Resolved again) refresh2 now2 st' = ?st2"
      using refreshed_ok_token [OF assms(4)] by (simp add: listings_effect_def b)
    have "run_listings_effect usr
                 (\<lparr>listings_reply = Resolved resp, refresh_reply = Resolved refreshed, clock = now\<rparr>
                  # \<lparr>listings_reply = Resolved again, refresh_reply = refresh2, clock = now2\<rparr>
                  # envs) prev st
          = run_listings_effect usr envs (Some (JStr tok)) ?st2"
      using h(2,3) by (simp add: e1 e2 b)
    also have "\<dots> = Some ?st2"
      by (rule run_listings_effect_quiescent) (simp add: tok2)
    finally have r: "run_listings_effect usr
                 (\<lparr>listings_reply = Resolved resp, refresh_reply = Resolved refreshed, clock = now\<rparr>
                  # \<lparr>listings_reply = Resolved again, refresh_reply = refresh2, clock = now2\<rparr>
                  # envs) prev st = Some ?st2" .
    have "listings_calls (trace ?st2) = listings_calls (trace st') @ [JStr tok]"
      by (simp add: st2 b storage_defs listings_calls_append)
    with c r show ?thesis by simp
  qed
  from a b c d show ?thesis by blast
qed

theorem refresh_then_retry_witness:
  \<open>Some seller = Some seller
   \<and> \<not> success_l listings_expired \<and> first_errorId listings_expired = Some 932
   \<and> refreshed_ok (Some (token_reply_of ''new'' (Some 3600)))
       = Some (''new'', \<lparr>access_token = Some ''new'', refresh_token = None,
                          expires_in = Some 3600, expires_in_seconds = Some 3600\<rparr>)
   \<and> truthy (ebayToken connected) \<and> ebayToken connected \<noteq> JStr ''new''
   \<and> None \<noteq> Some (ebayToken connected) \<and> success_l listings_ok
   \<and> localStorage (fetchListings (Some seller) (Resolved listings_expired)
        (Resolved (Some (token_reply_of ''new'' (Some 3600)))) 1000 connected) ''ebay_user_token''
      = Some ''{"value":"new","expiry":3601000}''
   \<and> ebayToken (fetchListings (Some seller) (Resolved listings_expired)
        (Resolved (Some (token_reply_of ''new'' (Some 3600)))) 1000 connected) = JStr ''new''
   \<and> listings_calls (trace (fetchListings (Some seller) (Resolved listings_expired)
        (Resolved (Some (token_reply_of ''new'' (Some 3600)))) 1000 connected)) = [JStr ''old'']
   \<and> map_option (\<lambda>s. listings_calls (trace s))
        (run_listings_effect (Some seller)
          [\<lparr>listings_reply = Resolved listings_expired,
            refresh_reply = Resolved (Some (token_reply_of ''new'' (Some 3600))), clock = 1000\<rparr>,
           \<lparr>listings_reply = Resolved listings_ok,
            refresh_reply = Rejected network_error, clock = 2000\<rparr>]
          None connected)
      = Some [JStr ''old'', JStr ''new'']\<close>
proof -
  have h1: "Some seller = Some seller" by simp
  note h2 = listings_expired_facts(1)
  note h3 = listings_expired_facts(2)
  have h4: "refreshed_ok (Some (token_reply_of ''new'' (Some 3600)))
       = Some (''new'', \<lparr>access_token = Some ''new'', refresh_token = None,
                          expires_in = Some 3600, expires_in_seconds = Some 3600\<rparr>)"
    by (simp add: refreshed_ok_reply)
  have g: "truthy (ebayToken connected) \<and> ebayToken connected \<noteq> JStr ''new''
     \<and> None \<noteq> Some (ebayToken connected) \<and> success_l listings_ok"
    by (simp add: connected_def listings_ok_def initial_def)
  have t: \<open>token_record (JStr ''new'') (JNum (1000 + or_7200 (Some 3600) * 1000))
      = ''{"value":"new","expiry":3601000}''\<close>
    by (simp add: text_defs or_7200_def)
  have c: "listings_calls (trace connected) = []" "ebayToken connected = JStr ''old''"
    by (simp_all add: connected_def initial_def)
  note main = refresh_then_retry [OF h1 h2 h3 h4 refl, where now = 1000 and st = connected
      and prev = None and again = listings_ok and ?refresh2.0 = "Rejected network_error"
      and ?now2.0 = 2000 and envs = "[]"]
  from main g have r: "run_listings_effect (Some seller)
          [\<lparr>listings_reply = Resolved listings_expired,
            refresh_reply = Resolved (Some (token_reply_of ''new'' (Some 3600))), clock = 1000\<rparr>,
           \<lparr>listings_reply = Resolved listings_ok,
            refresh_reply = Rejected network_error, clock = 2000\<rparr>]
          None connected
        = Some (fetchListings (Some seller) (Resolved listings_ok) (Rejected network_error) 2000
            (fetchListings (Some seller) (Resolved listings_expired)
              (Resolved (Some (token_reply_of ''new'' (Some 3600)))) 1000 connected))"
    and l: "listings_calls (trace (fetchListings (Some seller) (Resolved listings_ok)
            (Rejected network_error) 2000
            (fetchListings (Some seller) (Resolved listings_expired)
              (Resolved (Some (token_reply_of ''new'' (Some 3600)))) 1000 connected)))
        = listings_calls (trace connected) @ [ebayToken connected, JStr ''new'']"
    by blast+
  from main have m: "localStorage (fetchListings (Some seller) (Resolved listings_expired)
        (Resolved (Some (token_reply_of ''new'' (Some 3600)))) 1000 connected) ''ebay_user_token''
      = Some (token_record (JStr ''new'') (JNum (1000 + or_7200 (Some 3600) * 1000)))"
    "ebayToken (fetchListings (Some seller) (Resolved listings_expired)
        (Resolved (Some (token_reply_of ''new'' (Some 3600)))) 1000 connected) = JStr ''new''"
    "listings_calls (trace (fetchListings (Some seller) (Resolved listings_expired)
        (Resolved (Some (token_reply_of ''new'' (Some 3600)))) 1000 connected))
      = listings_calls (trace connected) @ [ebayToken connected]"
    by simp_all
  show ?thesis
    using h1 h2 h3 h4 g m r l by (simp add: t c)
qed

text \<open>
  C2 as stated has the expiry at \<^verbatim>\<open>now + expires_in * 1000\<close>. The code falls back to
  7200 seconds when \<^verbatim>\<open>expires_in\<close> is falsy: at time 1000, with \<^verbatim>\<open>expires_in\<close> zero
  or absent, the stored expiry is 7201000, where the formula gives 1000, or \<open>NaN\<close>
  (written \<^verbatim>\<open>null\<close>). And the fetch is re-invoked by a change of \<open>ebayToken\<close> only:
  when the refresh returns the token the page already holds, the page is quiescent after
  the one listings call.
\<close>

theorem refresh_claim_counterexample:
  \<open>localStorage (fetchListings (Some seller) (Resolved listings_expired)
       (Resolved (Some (token_reply_of ''new'' (Some 0)))) 1000 connected) ''ebay_user_token''
     = Some ''{"value":"new","expiry":7201000}''
   \<and> token_record (JStr ''new'') (JNum (1000 + 0 * 1000)) = ''{"value":"new","expiry":1000}''
   \<and> localStorage (fetchListings (Some seller) (Resolved listings_expired)
       (Resolved (Some (token_reply_of ''new'' None))) 1000 connected) ''ebay_user_token''
     = Some ''{"value":"new","expiry":7201000}''
   \<and> token_record (JStr ''new'') (expiry_after 1000 None) = ''{"value":"new","expiry":null}''
   \<and> run_listings_effect (Some seller)
        [\<lparr>listings_reply = Resolved listings_expired,
          refresh_reply = Resolved (Some (token_reply_of ''old'' (Some 3600))), clock = 1000\<rparr>]
        None connected
      = Some (fetchListings (Some seller) (Resolved listings_expired)
          (Resolved (Some (token_reply_of ''old'' (Some 3600)))) 1000 connected)
   \<and> listings_calls (trace (fetchListings (Some seller) (Resolved listings_expired)
          (Resolved (Some (token_reply_of ''old'' (Some 3600)))) 1000 connected))
      = [JStr ''old'']\<close>
proof -
  have a: "localStorage (fetchListings (Some seller) (Resolved listings_expired)
       (Resolved (Some (token_reply_of ''new'' s))) 1000 connected) ''ebay_user_token''
     = Some (token_record (JStr ''new'') (JNum 7201000))" if "s = None \<or> s = Some 0" for s
    using that
    by (auto simp add: fetchListings_refreshed [OF listings_expired_facts refreshed_ok_reply]
        storage_defs or_7200_def)
  have old: "fetchListings (Some seller) (Resolved listings_expired)
          (Resolved (Some (token_reply_of ''old'' (Some 3600)))) 1000 connected
      = (setItem ''ebay_user_token''
              (token_record (JStr ''old'') (JNum (1000 + or_7200 (Some 3600) * 1000)))
              (call (RefreshEbayUserToken (uid seller))
                 (call (GetActiveListings (ebayToken connected))
                    (connected\<lparr>loadingListings := True, listingsError := None\<rparr>))))
             \<lparr>ebayToken := JStr ''old'', loadingListings := False\<rparr>"
    by (simp add: fetchListings_refreshed [OF listings_expired_facts refreshed_ok_reply])
  have c: "ebayToken connected = JStr ''old''" "trace connected = []"
    by (simp_all add: connected_def initial_def)
  have b: "run_listings_effect (Some seller)
        [\<lparr>listings_reply = Resolved listings_expired,
          refresh_reply = Resolved (Some (token_reply_of ''old'' (Some 3600))), clock = 1000\<rparr>]
        None connected
      = Some (fetchListings (Some seller) (Resolved listings_expired)
          (Resolved (Some (token_reply_of ''old'' (Some 3600)))) 1000 connected)"
    by (simp add: listings_effect_def c) (simp add: old)
  have d: "listings_calls (trace (fetchListings (Some seller) (Resolved listings_expired)
          (Resolved (Some (token_reply_of ''old'' (Some 3600)))) 1000 connected))
      = [JStr ''old'']"
    by (simp add: old storage_defs c)
  from a b d show ?thesis
    by (simp add: token_record_new_7201000 token_record_new_1000 token_record_new_NaN
        expiry_after_def)
qed

text \<open>
  C3. After a listings reply with error 932, a refresh that fails should end in the
  teardown: both token keys removed, \<open>ebayToken\<close> absent, \<open>needsConnection\<close> true, no
  error shown. The code does so when the refresh call resolves with a reply that fails
  the test, and when it rejects with a 401 (the two lemmas below). It does not when the
  refresh call rejects with any other error: with the page of scenario \<open>connected\<close> and
  a refresh rejected by a network error, both keys stay in storage, \<open>ebayToken\<close> is
  still the old token, the connect prompt is not set and the message of the error is
  shown.
\<close>

theorem rejected_refresh_keeps_tokens:
  "localStorage (fetchListings (Some seller) (Resolved listings_expired)
       (Rejected network_error) 1000 connected) ''ebay_user_token''
     = Some (token_record (JStr ''old'') (JNum 500))
   \<and> localStorage (fetchListings (Some seller) (Resolved listings_expired)
       (Rejected network_error) 1000 connected) ''ebay_refresh_token'' = Some ''r1''
   \<and> ebayToken (fetchListings (Some seller) (Resolved listings_expired)
       (Rejected network_error) 1000 connected) = JStr ''old''
   \<and> \<not> needsConnection (fetchListings (Some seller) (Resolved listings_expired)
       (Rejected network_error) 1000 connected)
   \<and> listingsError (fetchListings (Some seller) (Resolved listings_expired)
       (Rejected network_error) 1000 connected) = Some ''Network Error''
   \<and> trace (fetchListings (Some seller) (Resolved listings_expired)
       (Rejected network_error) 1000 connected)
     = [Call (GetActiveListings (JStr ''old'')), Call (RefreshEbayUserToken ''u1'')]"
  by (simp add: fetchListings_def fetchListings_try_def fetchListings_catch_def Let_def
      first_errorId_def or_else_def storage_defs scenario_defs)

text \<open>
  The failing refreshes that do end in the teardown: a reply that fails the test
  \<^verbatim>\<open>refreshed?.success && refreshed.data?.access_token\<close> (no reply, no success, no
  data, no token or an empty one), and a call rejected with status 401, which the
  \<^verbatim>\<open>catch\<close> block handles.
\<close>

lemma refresh_failure_tears_down:
  assumes "\<not> success_l resp" and "first_errorId resp = Some 932"
    and "refreshed_ok refreshed = None"
    and "st' = fetchListings (Some u) (Resolved resp) (Resolved refreshed) now st"
  shows "localStorage st' ''ebay_user_token'' = None
       \<and> localStorage st' ''ebay_refresh_token'' = None
       \<and> ebayToken st' = JNull
       \<and> needsConnection st'
       \<and> listingsError st' = None
       \<and> \<not> loadingListings st'"
  using assms(4)
  by (simp add: fetchListings_refresh_failed [OF assms(1,2,3)] clear_tokens_def storage_defs)

lemma rejected_401_refresh_tears_down:
  assumes "\<not> success_l resp" and "first_errorId resp = Some 932"
    and "response_status err = Some 401 \<or> status err = Some 401"
    and "st' = fetchListings (Some u) (Resolved resp) (Rejected err) now st"
  shows "localStorage st' ''ebay_user_token'' = None
       \<and> localStorage st' ''ebay_refresh_token'' = None
       \<and> ebayToken st' = JNull
       \<and> needsConnection st'
       \<and> listingsError st' = None
       \<and> \<not> loadingListings st'"
  using assms
  by (auto simp add: fetchListings_def fetchListings_try_def fetchListings_catch_def Let_def
      clear_tokens_def storage_defs)

text \<open>
  C4. When the listings call rejects with an error whose \<^verbatim>\<open>response.status\<close> or
  \<^verbatim>\<open>status\<close> is 401, both token keys are gone from storage, \<open>ebayToken\<close> is
  \<^verbatim>\<open>null\<close>, \<open>needsConnection\<close> is true, \<open>listingsError\<close> is cleared and the
  loading flag is off. Up to the trace (the refresh call that was not made), this is
  the state the teardown after a failed refresh ends in.
\<close>

theorem unauthorized_fetch_tears_down:
  assumes "response_status err = Some 401 \<or> status err = Some 401"
    and "st' = fetchListings usr (Rejected err) refresh now st"
  shows "localStorage st' ''ebay_user_token'' = None
       \<and> localStorage st' ''ebay_refresh_token'' = None
       \<and> ebayToken st' = JNull
       \<and> needsConnection st'
       \<and> listingsError st' = None
       \<and> \<not> loadingListings st'
       \<and> (usr = Some u \<and> \<not> success_l resp \<and> first_errorId resp = Some 932
            \<and> refreshed_ok refreshed = None
          \<longrightarrow> st'\<lparr>trace := []\<rparr>
               = (fetchListings usr (Resolved resp) (Resolved refreshed) now2 st)\<lparr>trace := []\<rparr>)"
  using assms(2)
  by (auto simp add: fetchListings_unauthorized [OF assms(1)] fetchListings_refresh_failed
      clear_tokens_def storage_defs)

theorem unauthorized_fetch_tears_down_witness:
  "(response_status unauthorized = Some 401 \<or> status unauthorized = Some 401)
   \<and> localStorage (fetchListings (Some seller) (Rejected unauthorized)
         (Resolved (Some refresh_failed)) 1000 connected) ''ebay_user_token'' = None
   \<and> localStorage (fetchListings (Some seller) (Rejected unauthorized)
         (Resolved (Some refresh_failed)) 1000 connected) ''ebay_refresh_token'' = None
   \<and> ebayToken (fetchListings (Some seller) (Rejected unauthorized)
         (Resolved (Some refresh_failed)) 1000 connected) = JNull
   \<and> needsConnection (fetchListings (Some seller) (Rejected unauthorized)
         (Resolved (Some refresh_failed)) 1000 connected)
   \<and> listingsError (fetchListings (Some seller) (Rejected unauthorized)
         (Resolved (Some refresh_failed)) 1000 connected) = None
   \<and> \<not> loadingListings (fetchListings (Some seller) (Rejected unauthorized)
         (Resolved (Some refresh_failed)) 1000 connected)
   \<and> Some seller = Some seller \<and> \<not> success_l listings_expired
   \<and> first_errorId listings_expired = Some 932 \<and> refreshed_ok (Some refresh_failed) = None
   \<and> (fetchListings (Some seller) (Rejected unauthorized)
         (Resolved (Some refresh_failed)) 1000 connected)\<lparr>trace := []\<rparr>
      = (fetchListings (Some seller) (Resolved listings_expired)
         (Resolved (Some refresh_failed)) 1000 connected)\<lparr>trace := []\<rparr>"
proof -
  have h: "response_status unauthorized = Some 401 \<or> status unauthorized = Some 401"
    by (simp add: unauthorized_def)
  have h2: "\<not> success_l listings_expired" by (simp add: listings_expired_def)
  have h3: "first_errorId listings_expired = Some 932"
    by (simp add: listings_expired_def first_errorId_def)
  have h4: "refreshed_ok (Some refresh_failed) = None"
    by (simp add: refreshed_ok_def refresh_failed_def)
  from unauthorized_fetch_tears_down [OF h refl, where u = seller and resp = listings_expired
      and refreshed = "Some refresh_failed" and ?now2.0 = 1000] h h2 h3 h4
  show ?thesis by blast
qed
end
